theory Spec2Isabelle
  imports Complex_Main "HOL-Library.Multiset"
begin

section \<open>NumPy arrays and the operations the notebook uses\<close>

text \<open>
  A NumPy array is its shape and its entries in row-major (C) order. An entry is the
  real number its floating-point value denotes, so comparisons of entries are exact; NaN
  and the infinities are outside the model. What a floating-point reduction returns is
  not derived here: the rounded sum of a row is taken from the runtime, see below.
\<close>

record ndarray =
  shape :: "nat list"
  data :: "real list"

definition wf_ndarray :: "ndarray \<Rightarrow> bool" where
  "wf_ndarray a \<longleftrightarrow> length (data a) = prod_list (shape a)"

text \<open>
  The slices along the last axis: for shape \<open>(m, c)\<close> the \<open>m\<close> rows of \<open>c\<close> entries.
  Reductions with \<open>axis = -1\<close> work on these slices.
\<close>

definition last_axis_row :: "nat \<Rightarrow> real list \<Rightarrow> nat \<Rightarrow> real list" where
  "last_axis_row c xs i = take c (drop (i * c) xs)"

definition last_axis_rows :: "ndarray \<Rightarrow> real list list" where
  "last_axis_rows a =
     (case rev (shape a) of
        [] \<Rightarrow> []
      | c # ms \<Rightarrow> map (last_axis_row c (data a)) [0..<prod_list ms])"

text \<open>\<open>np.all(a >= lo)\<close> and \<open>np.all(a <= hi)\<close>.\<close>

definition all_ge :: "ndarray \<Rightarrow> real \<Rightarrow> bool" where
  "all_ge a lo = list_all (\<lambda>x. lo \<le> x) (data a)"

definition all_le :: "ndarray \<Rightarrow> real \<Rightarrow> bool" where
  "all_le a hi = list_all (\<lambda>x. x \<le> hi) (data a)"

text \<open>
  \<open>np.allclose(a, b)\<close> with NumPy's default tolerances \<open>rtol = 1e-05\<close> and
  \<open>atol = 1e-08\<close>: every entry satisfies \<open>|a - b| <= atol + rtol * |b|\<close>. The test
  is written here over the reals, on the floating-point value \<open>a\<close>. For \<open>b = 1\<close> it
  decides as the test in double precision does. For \<open>a\<close> between 1/2 and 2 the
  difference \<open>a - 1\<close> is a multiple of \<open>2^-53\<close> that is computed without rounding,
  and no such multiple lies between the exact tolerance and the double that
  \<open>atol + rtol * abs(1)\<close> evaluates to (lemma \<open>isclose_one_double\<close>); for any other
  \<open>a\<close> the difference is 1/2 or more and both tests fail.
\<close>

definition rtol :: real where
  "rtol = 1 / 100000"

definition atol :: real where
  "atol = 1 / 100000000"

definition isclose :: "real \<Rightarrow> real \<Rightarrow> bool" where
  "isclose a b \<longleftrightarrow> \<bar>a - b\<bar> \<le> atol + rtol * \<bar>b\<bar>"

definition allclose :: "real list \<Rightarrow> real \<Rightarrow> bool" where
  "allclose xs b = list_all (\<lambda>a. isclose a b) xs"

text \<open>
  \<open>argmax\<close> scans a slice from the left and keeps the index of the first largest entry:
  a later entry replaces the best one only when it is strictly larger.
\<close>

fun argmax_scan :: "real \<Rightarrow> nat \<Rightarrow> nat \<Rightarrow> real list \<Rightarrow> nat" where
  "argmax_scan best best_i i [] = best_i"
| "argmax_scan best best_i i (x # xs) =
     (if best < x then argmax_scan x i (Suc i) xs
      else argmax_scan best best_i (Suc i) xs)"

fun argmax :: "real list \<Rightarrow> nat" where
  "argmax [] = 0"
| "argmax (x # xs) = argmax_scan x 0 1 xs"

definition argmax_last_axis :: "ndarray \<Rightarrow> nat list" where
  "argmax_last_axis a = map argmax (last_axis_rows a)"

text \<open>\<open>np.arange(n)\<close> and \<open>np.column_stack\<close> of two one-dimensional integer arrays.\<close>

definition arange :: "nat \<Rightarrow> nat list" where
  "arange n = [0..<n]"

definition column_stack :: "nat list \<Rightarrow> nat list \<Rightarrow> nat list list" where
  "column_stack xs ys = map (\<lambda>(x, y). [x, y]) (zip xs ys)"

section \<open>Text output\<close>

text \<open>The format \<open>%d\<close> on a non-negative integer: its decimal digits.\<close>

definition digit_char :: "nat \<Rightarrow> char" where
  "digit_char d = ''0123456789'' ! d"

function fmt_d :: "nat \<Rightarrow> string" where
  "fmt_d n = (if n < 10 then [digit_char n] else fmt_d (n div 10) @ [digit_char (n mod 10)])"
  by pat_completeness auto
termination
  by (relation "measure id") auto

declare fmt_d.simps [simp del]

text \<open>\<open>delimiter.join(fields)\<close>.\<close>

fun join :: "string \<Rightarrow> string list \<Rightarrow> string" where
  "join d [] = []"
| "join d [s] = s"
| "join d (s # t # ts) = s @ d @ join d (t # ts)"

definition newline :: char where
  "newline = CHR 0x0A"

definition unlines :: "string list \<Rightarrow> string" where
  "unlines ls = concat (map (\<lambda>l. l @ [newline]) ls)"

text \<open>
  Reading back: the lines of a text, split at the line breaks as a reader of the file
  sees them, and the number a string of decimal digits denotes.
\<close>

fun lines_of :: "string \<Rightarrow> string list" where
  "lines_of [] = []"
| "lines_of (c # cs) =
     (if c = newline then [] # lines_of cs
      else (case lines_of cs of [] \<Rightarrow> [[c]] | l # ls \<Rightarrow> (c # l) # ls))"

definition digit_value :: "char \<Rightarrow> nat" where
  "digit_value c = of_char c - 48"

definition decimal_value :: "string \<Rightarrow> nat" where
  "decimal_value s = foldl (\<lambda>a c. 10 * a + digit_value c) 0 s"

section \<open>The file system\<close>

text \<open>
  The file system maps each existing path to what is there: a regular file with its
  bytes, a regular file that holds the gzip compression of a text, or a directory.
  \<open>os.path.exists\<close> is true of all three.
\<close>

datatype node = File string | Gzip string | Directory

type_synonym filesystem = "string \<rightharpoonup> node"

definition path_exists :: "filesystem \<Rightarrow> string \<Rightarrow> bool" where
  "path_exists fs p \<longleftrightarrow> fs p \<noteq> None"

text \<open>\<open>name.endswith(suffix)\<close>.\<close>

definition endswith :: "string \<Rightarrow> string \<Rightarrow> bool" where
  "endswith name suffix \<longleftrightarrow>
     length suffix \<le> length name \<and> drop (length name - length suffix) name = suffix"

text \<open>The file at a path is gzip-compressed.\<close>

definition gzip_compressed :: "filesystem \<Rightarrow> string \<Rightarrow> bool" where
  "gzip_compressed fs p = (case fs p of Some (Gzip t) \<Rightarrow> True | _ \<Rightarrow> False)"

section \<open>The runtime\<close>

text \<open>
  What a call takes from its runtime and cannot be read off the notebook:
  \<^item> \<open>fsum\<close>, the rounded floating-point sum that \<open>predictions.sum(-1)\<close> computes for
    a row (it depends on the element type and on the order in which NumPy adds);
  \<^item> \<open>writable\<close>, whether the operating system lets a path be opened for writing in
    a state of the file system (the directory of the path exists, the process has the
    permissions).
  An error while writing to the opened file (a full disk) is outside the model.
\<close>

record runtime =
  fsum :: "real list \<Rightarrow> real"
  writable :: "filesystem \<Rightarrow> string \<Rightarrow> bool"

text \<open>\<open>a.sum(-1)\<close>: one rounded sum per slice along the last axis.\<close>

definition sum_last_axis :: "runtime \<Rightarrow> ndarray \<Rightarrow> real list" where
  "sum_last_axis rt a = map (fsum rt) (last_axis_rows a)"

text \<open>
  Opening a path for writing fails on the empty path and on a directory, whatever the
  operating system, and otherwise where the operating system refuses.
\<close>

definition opens_for_writing :: "runtime \<Rightarrow> filesystem \<Rightarrow> string \<Rightarrow> bool" where
  "opens_for_writing rt fs p \<longleftrightarrow> p \<noteq> [] \<and> fs p \<noteq> Some Directory \<and> writable rt fs p"

section \<open>Exceptions and \<open>np.savetxt\<close>\<close>

text \<open>
  The exceptions of a call: the \<open>ValueError\<close>s the notebook raises, with their messages,
  and the \<open>IOError\<close> (\<open>OSError\<close> in Python 3) of a file that cannot be opened.
\<close>

datatype error = ValueError string | IOError

text \<open>
  \<open>np.savetxt(fname, X, fmt='%d', delimiter=d, header=h, comments=c)\<close> opens the file,
  which may fail, and replaces its contents by the header line \<open>c + h\<close> followed by one
  line per row of \<open>X\<close>, the fields of a row formatted with \<open>%d\<close> and joined by the
  delimiter. If the name ends in \<open>.gz\<close> the text is saved gzip-compressed, as NumPy
  documents.
\<close>

definition savetxt_lines :: "nat list list \<Rightarrow> string \<Rightarrow> string \<Rightarrow> string \<Rightarrow> string list" where
  "savetxt_lines X delimiter header comments =
     (comments @ header) # map (\<lambda>row. join delimiter (map fmt_d row)) X"

definition saved :: "string \<Rightarrow> string \<Rightarrow> node" where
  "saved fname txt = (if endswith fname ''.gz'' then Gzip txt else File txt)"

definition savetxt ::
  "runtime \<Rightarrow> string \<Rightarrow> nat list list \<Rightarrow> string \<Rightarrow> string \<Rightarrow> string \<Rightarrow> filesystem
     \<Rightarrow> (error + unit) \<times> filesystem" where
  "savetxt rt fname X delimiter header comments fs =
     (if \<not> opens_for_writing rt fs fname then (Inl IOError, fs)
      else (Inr (), fs(fname \<mapsto> saved fname (unlines (savetxt_lines X delimiter header comments)))))"

section \<open>The submission writer\<close>

text \<open>
  \<open>create_kaggle_submission_file(predictions, output_file, overwrite=False)\<close>. The
  result is the exception raised, if any, together with the file system after the call.
  A call that leaves \<open>overwrite\<close> out is a call with \<open>False\<close>.
\<close>

definition create_kaggle_submission_file ::
  "runtime \<Rightarrow> ndarray \<Rightarrow> string \<Rightarrow> bool \<Rightarrow> filesystem \<Rightarrow> (error + unit) \<times> filesystem" where
  "create_kaggle_submission_file rt predictions output_file overwrite fs =
     (if shape predictions \<noteq> [10000, 25] then
        (Inl (ValueError ''predictions should be an array of shape (10000, 25).''), fs)
      else if \<not> (all_ge predictions 0 \<and> all_le predictions 1) then
        (Inl (ValueError ''predictions should be an array of probabilities in [0, 1].''), fs)
      else if \<not> allclose (sum_last_axis rt predictions) 1 then
        (Inl (ValueError ''predictions rows should sum to one.''), fs)
      else if path_exists fs output_file \<and> \<not> overwrite then
        (Inl (ValueError (''File already exists at '' @ output_file)), fs)
      else
        let pred_classes = argmax_last_axis predictions;
            ids = arange (length pred_classes)
        in savetxt rt output_file (column_stack ids pred_classes) '','' ''Id,Class'' '''' fs)"

text \<open>
  The checks of the writer, named for the statements below: the predictions pass the
  shape check, the range check and the row-sum check.
\<close>

definition valid_predictions :: "runtime \<Rightarrow> ndarray \<Rightarrow> bool" where
  "valid_predictions rt a \<longleftrightarrow>
     shape a = [10000, 25] \<and> all_ge a 0 \<and> all_le a 1 \<and> allclose (sum_last_axis rt a) 1"

text \<open>
  What \<open>argmax\<close> is meant to return: an index of a largest entry that no equal entry
  precedes.
\<close>

definition first_max_index :: "real list \<Rightarrow> nat \<Rightarrow> bool" where
  "first_max_index xs k \<longleftrightarrow>
     k < length xs \<and> (\<forall>j<length xs. xs ! j \<le> xs ! k) \<and> (\<forall>j<k. xs ! j < xs ! k)"

text \<open>
  Concrete inputs for the runs below: \<open>np.full(shape, v)\<close>, the constant array, and
  \<open>np.tile(row, (m, 1))\<close>, the array of \<open>m\<close> copies of a row; the row that puts all
  probability on class 12.
\<close>

definition np_full :: "nat list \<Rightarrow> real \<Rightarrow> ndarray" where
  "np_full sh v = \<lparr>shape = sh, data = replicate (prod_list sh) v\<rparr>"

definition np_tile :: "real list \<Rightarrow> nat \<Rightarrow> ndarray" where
  "np_tile row m = \<lparr>shape = [m, length row], data = concat (replicate m row)\<rparr>"

definition class_12 :: "real list" where
  "class_12 = replicate 12 0 @ 1 # replicate 12 0"

text \<open>
  A runtime for the runs below: sums without rounding and an operating system that
  refuses no path. The arrays of the runs have the entries 0, 1 and 2 only (the run
  that fails the shape check apart, where no sum is taken), and floating-point sums of
  25 such entries are exact.
\<close>

definition exact_runtime :: runtime where
  "exact_runtime = \<lparr>fsum = sum_list, writable = (\<lambda>fs p. True)\<rparr>"

section \<open>The batch data provider\<close>

text \<open>
  The notebook imports \<open>MSD10GenreDataProvider\<close> and \<open>MSD25GenreDataProvider\<close> from
  \<open>mlp.data_providers\<close> and only calls them; the module itself is not part of the
  notebook. The provider is therefore modelled from its specification. Where the
  specification leaves a policy open, the model fixes it: a remainder of the dataset that
  does not fill a batch is dropped, and the end of a pass is a sentinel returned by the
  call that finds the pass exhausted.
\<close>

text \<open>
  Modelled from the spec: the dataset of \<open>mlp.data_providers\<close>, two parallel sequences
  \<open>inputs\<close> (N rows) and \<open>targets\<close> (N integer class labels below the number of classes C).
\<close>

record dataset =
  inputs :: "real list list"
  targets :: "int list"
  classes :: nat

text \<open>
  Modelled from the spec: the provider state of \<open>mlp.data_providers\<close>: \<open>batch_size\<close>,
  \<open>num_classes\<close>, \<open>current_order\<close>, \<open>cursor\<close>, \<open>shuffle_flag\<close>, the private random
  source, and the shared read-only dataset.
\<close>

record provider =
  source :: dataset
  batch_size :: nat
  num_classes :: nat
  current_order :: "nat list"
  cursor :: nat
  shuffle_flag :: bool
  rng :: nat

text \<open>
  Modelled from the spec: the random source of \<open>mlp.data_providers\<close>. The specification
  names no generator, so the shuffle is a parameter: from the state of the random source
  and N it gives an order and the next state of the source.
\<close>

type_synonym shuffler = "nat \<Rightarrow> nat \<Rightarrow> nat list \<times> nat"

text \<open>
  Modelled from the spec: the requirement on the shuffle of \<open>mlp.data_providers\<close>, that
  it produces a permutation of \<open>0..N-1\<close>.
\<close>

definition permuting :: "shuffler \<Rightarrow> bool" where
  "permuting shuffle \<longleftrightarrow> (\<forall>r n. mset (fst (shuffle r n)) = mset [0..<n])"

text \<open>Modelled from the spec: the errors of \<open>mlp.data_providers\<close>.\<close>

datatype provider_error = ConfigurationError

text \<open>
  Modelled from the spec: what \<open>next_batch\<close> of \<open>mlp.data_providers\<close> returns, a batch
  \<open>(input_block, target_block)\<close> or the end-of-pass sentinel.
\<close>

datatype item = Batch "real list list" "int list list" | EndOfPass

text \<open>
  Modelled from the spec: the size N of the dataset a provider of \<open>mlp.data_providers\<close>
  iterates.
\<close>

definition dataset_size :: "provider \<Rightarrow> nat" where
  "dataset_size p = length (inputs (source p))"

text \<open>
  Modelled from the spec: \<open>num_batches\<close> of \<open>mlp.data_providers\<close>,
  \<open>floor(N / batch_size)\<close>.
\<close>

definition num_batches :: "provider \<Rightarrow> nat" where
  "num_batches p = dataset_size p div batch_size p"

text \<open>
  Modelled from the spec: \<open>reset_pass\<close> of \<open>mlp.data_providers\<close>: a shuffled order from
  the private random source if \<open>shuffle_flag\<close> is set, the identity order otherwise, and
  the cursor back at 0.
\<close>

definition reset_pass :: "shuffler \<Rightarrow> provider \<Rightarrow> provider" where
  "reset_pass shuffle p =
     (if shuffle_flag p then
        (case shuffle (rng p) (dataset_size p) of
           (order, r) \<Rightarrow> p\<lparr>current_order := order, cursor := 0, rng := r\<rparr>)
      else p\<lparr>current_order := [0..<dataset_size p], cursor := 0\<rparr>)"

text \<open>
  Modelled from the spec: the one-hot expansion of \<open>mlp.data_providers\<close>, a vector of
  width C for a target label.
\<close>

definition one_hot :: "nat \<Rightarrow> int \<Rightarrow> int list" where
  "one_hot c k = map (\<lambda>j. if int j = k then 1 else 0) [0..<c]"

text \<open>
  Modelled from the spec: the gathering step of \<open>next_batch\<close> in \<open>mlp.data_providers\<close>:
  the rows of \<open>inputs\<close> and the one-hot expanded \<open>targets\<close> at the given indices.
\<close>

definition gather :: "provider \<Rightarrow> nat list \<Rightarrow> item" where
  "gather p idx =
     Batch (map (\<lambda>i. inputs (source p) ! i) idx)
           (map (\<lambda>i. one_hot (num_classes p) (targets (source p) ! i)) idx)"

text \<open>
  Modelled from the spec: the slice \<open>current_order[c : c + batch_size]\<close> that
  \<open>next_batch\<close> of \<open>mlp.data_providers\<close> takes at cursor \<open>c\<close>.
\<close>

definition order_slice :: "provider \<Rightarrow> nat \<Rightarrow> nat list" where
  "order_slice p c = take (batch_size p) (drop c (current_order p))"

text \<open>
  Modelled from the spec: \<open>next_batch\<close> of \<open>mlp.data_providers\<close>. When
  \<open>cursor + batch_size > N\<close> it signals the end of the pass and calls \<open>reset_pass\<close>;
  otherwise it gathers the slice at the cursor and advances the cursor by \<open>batch_size\<close>.
\<close>

definition next_batch :: "shuffler \<Rightarrow> provider \<Rightarrow> item \<times> provider" where
  "next_batch shuffle p =
     (if cursor p + batch_size p > dataset_size p then (EndOfPass, reset_pass shuffle p)
      else (gather p (order_slice p (cursor p)), p\<lparr>cursor := cursor p + batch_size p\<rparr>))"

text \<open>
  Modelled from the spec: a caller of \<open>mlp.data_providers\<close> pulling \<open>k\<close> items in
  sequence, as the training loop of the notebook does.
\<close>

fun pull :: "shuffler \<Rightarrow> nat \<Rightarrow> provider \<Rightarrow> item list \<times> provider" where
  "pull shuffle 0 p = ([], p)"
| "pull shuffle (Suc k) p =
     (case next_batch shuffle p of
        (x, p') \<Rightarrow> (case pull shuffle k p' of (xs, p'') \<Rightarrow> (x # xs, p'')))"

text \<open>
  Modelled from the spec: the split identifiers of \<open>mlp.data_providers\<close>.
\<close>

definition valid_split :: "string \<Rightarrow> bool" where
  "valid_split which_set \<longleftrightarrow> which_set \<in> set [''train'', ''valid'', ''test'']"

text \<open>
  Modelled from the spec: construction of a provider of \<open>mlp.data_providers\<close> from a split
  identifier, \<open>batch_size\<close>, \<open>shuffle_flag\<close> and an optional fixed seed. \<open>load\<close> is the
  external loader of the dataset of a split, \<open>entropy\<close> what seeds the random source when
  no seed is given. Construction fails with \<open>ConfigurationError\<close> on an invalid split
  identifier and on \<open>batch_size <= 0\<close> or \<open>batch_size > N\<close>; otherwise it initialises
  \<open>current_order\<close> and the cursor by \<open>reset_pass\<close>.
\<close>

definition construct_provider ::
  "shuffler \<Rightarrow> (string \<Rightarrow> dataset) \<Rightarrow> nat \<Rightarrow> string \<Rightarrow> int \<Rightarrow> bool \<Rightarrow> nat option
     \<Rightarrow> provider_error + provider" where
  "construct_provider shuffle load entropy which_set bs flag seed =
     (if \<not> valid_split which_set then Inl ConfigurationError
      else
        let d = load which_set; n = length (inputs d) in
        if bs \<le> 0 \<or> bs > int n then Inl ConfigurationError
        else Inr (reset_pass shuffle
               \<lparr>source = d, batch_size = nat bs, num_classes = classes d,
                current_order = [0..<n], cursor = 0, shuffle_flag = flag,
                rng = (case seed of Some s \<Rightarrow> s | None \<Rightarrow> entropy)\<rparr>))"

text \<open>
  Modelled from the spec: the state of a provider of \<open>mlp.data_providers\<close> between calls:
  \<open>1 <= batch_size <= N\<close> and \<open>current_order\<close> a permutation of \<open>0..N-1\<close>.
\<close>

definition provider_inv :: "provider \<Rightarrow> bool" where
  "provider_inv p \<longleftrightarrow>
     0 < batch_size p \<and> batch_size p \<le> dataset_size p \<and>
     mset (current_order p) = mset [0..<dataset_size p]"

text \<open>
  Modelled from the spec: the batches of one pass of a provider of \<open>mlp.data_providers\<close>,
  one per slice of \<open>current_order\<close>.
\<close>

definition pass_batches :: "provider \<Rightarrow> item list" where
  "pass_batches p = map (\<lambda>k. gather p (order_slice p (k * batch_size p))) [0..<num_batches p]"

text \<open>
  A shuffle for the concrete runs below: it rotates the identity order by the state of
  the random source and advances the state.
\<close>

definition rotating_shuffle :: shuffler where
  "rotating_shuffle r n = (rotate r [0..<n], Suc r)"

text \<open>A dataset of \<open>n\<close> rows with one feature each and labels cycling through 10 classes.\<close>

definition toy_dataset :: "nat \<Rightarrow> dataset" where
  "toy_dataset n =
     \<lparr>inputs = map (\<lambda>i. [real i]) [0..<n], targets = map (\<lambda>i. int (i mod 10)) [0..<n],
      classes = 10\<rparr>"

section \<open>Properties of the array operations\<close>

lemma last_axis_rows_2d:
  "shape a = [m, c] \<Longrightarrow> last_axis_rows a = map (last_axis_row c (data a)) [0..<m]"
  by (simp add: last_axis_rows_def)

lemma length_last_axis_row:
  assumes "length xs = m * c" "i < m"
  shows "length (last_axis_row c xs i) = c"
proof -
  have "Suc i * c \<le> m * c"
    using assms(2) by (intro mult_le_mono1) simp
  then have "i * c + c \<le> length xs"
    using assms(1) by simp
  then show ?thesis
    by (simp add: last_axis_row_def)
qed

lemma argmax_scan_first_max:
  assumes "length pre = i" "bi < i" "pre ! bi = best"
    "\<forall>j<i. pre ! j \<le> best" "\<forall>j<bi. pre ! j < best"
  shows "first_max_index (pre @ xs) (argmax_scan best bi i xs)"
  using assms
proof (induction xs arbitrary: pre i bi best)
  case Nil
  then show ?case by (simp add: first_max_index_def)
next
  case (Cons x xs)
  show ?case
  proof (cases "best < x")
    case True
    have "first_max_index ((pre @ [x]) @ xs) (argmax_scan x i (Suc i) xs)"
    proof (rule Cons.IH)
      show "length (pre @ [x]) = Suc i" using Cons.prems(1) by simp
      show "i < Suc i" by simp
      show "(pre @ [x]) ! i = x" using Cons.prems(1) by (simp add: nth_append)
      show "\<forall>j<Suc i. (pre @ [x]) ! j \<le> x"
        using Cons.prems(1,4) True by (auto simp: nth_append less_Suc_eq)
      show "\<forall>j<i. (pre @ [x]) ! j < x"
        using Cons.prems(1,4) True by (auto simp: nth_append)
    qed
    with True show ?thesis by simp
  next
    case False
    have "first_max_index ((pre @ [x]) @ xs) (argmax_scan best bi (Suc i) xs)"
    proof (rule Cons.IH)
      show "length (pre @ [x]) = Suc i" using Cons.prems(1) by simp
      show "bi < Suc i" using Cons.prems(2) by simp
      show "(pre @ [x]) ! bi = best" using Cons.prems(1,2,3) by (simp add: nth_append)
      show "\<forall>j<Suc i. (pre @ [x]) ! j \<le> best"
        using Cons.prems(1,4) False by (auto simp: nth_append less_Suc_eq)
      show "\<forall>j<bi. (pre @ [x]) ! j < best"
        using Cons.prems(1,2,5) by (auto simp: nth_append)
    qed
    with False show ?thesis by simp
  qed
qed

lemma argmax_first_max: "xs \<noteq> [] \<Longrightarrow> first_max_index xs (argmax xs)"
proof (cases xs)
  case Nil
  assume "xs \<noteq> []"
  with Nil show ?thesis by simp
next
  case (Cons x xs')
  have "first_max_index ([x] @ xs') (argmax_scan x 0 1 xs')"
    by (rule argmax_scan_first_max) auto
  with Cons show ?thesis by simp
qed

lemma argmax_replicate: "argmax (replicate n v) = 0"
proof (cases n)
  case 0
  then show ?thesis by simp
next
  case (Suc m)
  then have "first_max_index (replicate n v) (argmax (replicate n v))"
    by (intro argmax_first_max) simp
  then show ?thesis
    by (cases "argmax (replicate n v)") (auto simp: first_max_index_def)
qed

lemma column_stack_arange:
  "column_stack (arange (length cs)) cs = map (\<lambda>i. [i, cs ! i]) [0..<length cs]"
  unfolding column_stack_def arange_def
  by (rule nth_equalityI) auto

lemma all_ge_le_iff:
  "all_ge a lo \<and> all_le a hi \<longleftrightarrow> list_all (\<lambda>x. lo \<le> x \<and> x \<le> hi) (data a)"
  by (auto simp: all_ge_def all_le_def list_all_iff)

lemma allclose_rows_iff:
  assumes "shape a = [m, c]"
  shows "allclose (sum_last_axis rt a) b \<longleftrightarrow>
    (\<forall>i<m. isclose (fsum rt (last_axis_row c (data a) i)) b)"
  by (auto simp: allclose_def sum_last_axis_def last_axis_rows_2d [OF assms] list_all_iff)

lemma isclose_one: "isclose s 1 \<longleftrightarrow> \<bar>s - 1\<bar> \<le> 1 / 100000000 + 1 / 100000"
  by (simp add: isclose_def atol_def rtol_def)

text \<open>
  The tolerance in floating point: for a sum \<open>1 + k / 2^53\<close> the test against the exact
  tolerance \<open>1e-08 + 1e-05\<close> and the test against the double that
  \<open>atol + rtol * abs(1)\<close> evaluates to, \<open>1477215265422661 / 2^67\<close>, agree.
\<close>

lemma isclose_one_double:
  "isclose (1 + real_of_int k / 2 ^ 53) 1 \<longleftrightarrow>
     \<bar>real_of_int k\<bar> / 2 ^ 53 \<le> 1477215265422661 / 2 ^ 67"
proof -
  have "isclose (1 + real_of_int k / 2 ^ 53) 1 \<longleftrightarrow>
      \<bar>real_of_int k\<bar> / 2 ^ 53 \<le> 1001 / 100000000"
    by (simp add: isclose_one abs_divide)
  also have "\<dots> \<longleftrightarrow> \<bar>real_of_int k\<bar> * 100000000 \<le> 1001 * 2 ^ 53"
    by (simp add: field_simps)
  also have "\<dots> \<longleftrightarrow> real_of_int (\<bar>k\<bar> * 100000000) \<le> real_of_int (1001 * 2 ^ 53)"
    by simp
  also have "\<dots> \<longleftrightarrow> \<bar>k\<bar> * 100000000 \<le> 1001 * 2 ^ 53"
    by (simp only: of_int_le_iff)
  also have "\<dots> \<longleftrightarrow> \<bar>k\<bar> \<le> 90162064539"
    by simp (rule iffI; linarith)
  also have "\<dots> \<longleftrightarrow> \<bar>k\<bar> * 2 ^ 14 \<le> 1477215265422661"
    by simp (rule iffI; linarith)
  also have "\<dots> \<longleftrightarrow> real_of_int (\<bar>k\<bar> * 2 ^ 14) \<le> real_of_int 1477215265422661"
    by (simp only: of_int_le_iff)
  also have "\<dots> \<longleftrightarrow> \<bar>real_of_int k\<bar> / 2 ^ 53 \<le> 1477215265422661 / 2 ^ 67"
    by (simp add: field_simps)
  finally show ?thesis .
qed

section \<open>Properties of the text output\<close>

lemma digit_char_not_newline: "d < 10 \<Longrightarrow> digit_char d \<noteq> newline"
proof -
  assume "d < 10"
  then have "d \<in> {0, 1, 2, 3, 4, 5, 6, 7, 8, 9}" by auto
  then show ?thesis
    by (auto simp: digit_char_def newline_def)
qed

lemma fmt_d_no_newline: "newline \<notin> set (fmt_d n)"
proof (induction n rule: fmt_d.induct)
  case (1 n)
  show ?case
  proof (cases "n < 10")
    case True
    then show ?thesis
      using digit_char_not_newline [of n] by (subst fmt_d.simps) auto
  next
    case False
    moreover have "digit_char (n mod 10) \<noteq> newline"
      by (rule digit_char_not_newline) simp
    ultimately show ?thesis
      using "1.IH" by (subst fmt_d.simps) auto
  qed
qed

text \<open>
  The text written is read back line by line, and \<open>fmt_d\<close> writes the decimal digits
  of its argument.
\<close>

lemma lines_of_line:
  "newline \<notin> set l \<Longrightarrow> lines_of (l @ newline # rest) = l # lines_of rest"
  by (induction l) auto

lemma lines_of_unlines:
  "\<forall>l\<in>set ls. newline \<notin> set l \<Longrightarrow> lines_of (unlines ls) = ls"
proof (induction ls)
  case Nil
  then show ?case by (simp add: unlines_def)
next
  case (Cons l ls)
  have "unlines (l # ls) = l @ newline # unlines ls"
    by (simp add: unlines_def)
  with Cons show ?case
    by (simp add: lines_of_line)
qed

lemma digit_value_digit_char: "d < 10 \<Longrightarrow> digit_value (digit_char d) = d"
proof -
  assume "d < 10"
  then have "d \<in> {0, 1, 2, 3, 4, 5, 6, 7, 8, 9}" by auto
  then show ?thesis
    by (auto simp: digit_char_def digit_value_def)
qed

lemma decimal_value_fmt_d: "decimal_value (fmt_d n) = n"
proof (induction n rule: fmt_d.induct)
  case (1 n)
  show ?case
  proof (cases "n < 10")
    case True
    then show ?thesis
      by (subst fmt_d.simps) (simp add: decimal_value_def digit_value_digit_char)
  next
    case False
    then have "decimal_value (fmt_d (n div 10)) = n div 10"
      by (rule "1.IH")
    then have "decimal_value (fmt_d (n div 10) @ [digit_char (n mod 10)]) =
        10 * (n div 10) + n mod 10"
      by (simp add: decimal_value_def digit_value_digit_char)
    with False show ?thesis
      by (subst fmt_d.simps) simp
  qed
qed

lemma submission_lines:
  assumes "shape p = [10000, 25]"
  shows "savetxt_lines
           (column_stack (arange (length (argmax_last_axis p))) (argmax_last_axis p))
           '','' ''Id,Class'' '''' =
         ''Id,Class'' #
           map (\<lambda>i. fmt_d i @ '','' @ fmt_d (argmax (last_axis_row 25 (data p) i))) [0..<10000]"
proof -
  have len: "length (argmax_last_axis p) = 10000"
    by (simp add: argmax_last_axis_def last_axis_rows_2d [OF assms])
  have nth: "argmax_last_axis p ! i = argmax (last_axis_row 25 (data p) i)" if "i < 10000" for i
    using that by (simp add: argmax_last_axis_def last_axis_rows_2d [OF assms])
  have "map (\<lambda>row. join '','' (map fmt_d row))
          (column_stack (arange (length (argmax_last_axis p))) (argmax_last_axis p)) =
        map (\<lambda>i. fmt_d i @ '','' @ fmt_d (argmax (last_axis_row 25 (data p) i))) [0..<10000]"
    unfolding column_stack_arange
    by (rule nth_equalityI) (simp_all add: len nth)
  then show ?thesis
    by (simp add: savetxt_lines_def)
qed

section \<open>The branches of the submission writer\<close>

lemma create_shape_error:
  "shape p \<noteq> [10000, 25] \<Longrightarrow>
   create_kaggle_submission_file rt p f ow fs =
     (Inl (ValueError ''predictions should be an array of shape (10000, 25).''), fs)"
  by (simp add: create_kaggle_submission_file_def)

lemma create_range_error:
  "shape p = [10000, 25] \<Longrightarrow> \<not> (all_ge p 0 \<and> all_le p 1) \<Longrightarrow>
   create_kaggle_submission_file rt p f ow fs =
     (Inl (ValueError ''predictions should be an array of probabilities in [0, 1].''), fs)"
  by (simp add: create_kaggle_submission_file_def)

lemma create_sum_error:
  "shape p = [10000, 25] \<Longrightarrow> all_ge p 0 \<Longrightarrow> all_le p 1 \<Longrightarrow>
   \<not> allclose (sum_last_axis rt p) 1 \<Longrightarrow>
   create_kaggle_submission_file rt p f ow fs =
     (Inl (ValueError ''predictions rows should sum to one.''), fs)"
  by (simp add: create_kaggle_submission_file_def)

lemma create_exists_error:
  "valid_predictions rt p \<Longrightarrow> path_exists fs f \<Longrightarrow> \<not> ow \<Longrightarrow>
   create_kaggle_submission_file rt p f ow fs =
     (Inl (ValueError (''File already exists at '' @ f)), fs)"
  by (simp add: create_kaggle_submission_file_def valid_predictions_def)

lemma create_io_error:
  assumes "valid_predictions rt p" "\<not> path_exists fs f \<or> ow" "\<not> opens_for_writing rt fs f"
  shows "create_kaggle_submission_file rt p f ow fs = (Inl IOError, fs)"
  using assms
  by (auto simp: create_kaggle_submission_file_def valid_predictions_def Let_def savetxt_def)

lemma create_writes:
  assumes "valid_predictions rt p" "\<not> path_exists fs f \<or> ow" "opens_for_writing rt fs f"
  shows "create_kaggle_submission_file rt p f ow fs =
     (Inr (), fs(f \<mapsto> saved f (unlines (''Id,Class'' #
        map (\<lambda>i. fmt_d i @ '','' @ fmt_d (argmax (last_axis_row 25 (data p) i))) [0..<10000]))))"
proof -
  have sh: "shape p = [10000, 25]"
    using assms(1) by (simp add: valid_predictions_def)
  show ?thesis
    using assms
    by (auto simp: create_kaggle_submission_file_def valid_predictions_def Let_def savetxt_def
        submission_lines [OF sh])
qed

lemma create_success_file_exists:
  assumes "create_kaggle_submission_file rt q f ow fs0 = (Inr (), fs')"
  shows "path_exists fs' f"
  using assms
  by (auto simp: create_kaggle_submission_file_def Let_def savetxt_def path_exists_def
      split: if_splits)

lemma valid_predictions_iff:
  "valid_predictions rt p \<longleftrightarrow>
     shape p = [10000, 25] \<and> list_all (\<lambda>x. 0 \<le> x \<and> x \<le> 1) (data p) \<and>
     list_all (\<lambda>i. isclose (fsum rt (last_axis_row 25 (data p) i)) 1) [0..<10000]"
proof (cases "shape p = [10000, 25]")
  case True
  have "allclose (sum_last_axis rt p) 1 \<longleftrightarrow>
      list_all (\<lambda>i. isclose (fsum rt (last_axis_row 25 (data p) i)) 1) [0..<10000]"
    by (auto simp: allclose_rows_iff [OF True] list_all_iff)
  then show ?thesis
    using True all_ge_le_iff [of p 0 1] unfolding valid_predictions_def by blast
next
  case False
  then show ?thesis by (simp add: valid_predictions_def)
qed

section \<open>The concrete inputs\<close>

lemma np_full_shape: "shape (np_full sh v) = sh"
  by (simp add: np_full_def)

lemma np_full_data: "data (np_full [10000, 25] v) = replicate 250000 v"
  by (simp add: np_full_def)

lemma row_replicate:
  assumes "i < 10000"
  shows "last_axis_row 25 (replicate 250000 v) i = replicate 25 v"
proof -
  have "25 \<le> 250000 - i * 25"
    using assms by simp
  then show ?thesis
    by (simp add: last_axis_row_def min_def)
qed

lemma sum_list_replicate_real: "sum_list (replicate n (v::real)) = real n * v"
  by (induction n) (simp_all add: algebra_simps)

lemma np_tile_shape: "shape (np_tile row m) = [m, length row]"
  by (simp add: np_tile_def)

lemma np_tile_wf: "wf_ndarray (np_tile row m)"
  by (simp add: np_tile_def wf_ndarray_def length_concat sum_list_replicate)

lemma row_tile:
  "i < m \<Longrightarrow> last_axis_row (length row) (concat (replicate m row)) i = row"
proof (induction m arbitrary: i)
  case 0
  then show ?case by simp
next
  case (Suc m)
  show ?case
  proof (cases i)
    case 0
    then show ?thesis by (simp add: last_axis_row_def)
  next
    case (Suc j)
    with Suc.prems have "j < m" by simp
    then have "last_axis_row (length row) (concat (replicate m row)) j = row"
      by (rule Suc.IH)
    then show ?thesis
      using Suc by (simp add: last_axis_row_def)
  qed
qed

lemma class_12_length: "length class_12 = 25"
  by (simp add: class_12_def)

lemma class_12_sum: "sum_list class_12 = 1"
  by (simp add: class_12_def sum_list_replicate_real)

lemma class_12_range: "list_all (\<lambda>x. 0 \<le> x \<and> x \<le> 1) class_12"
  by (simp add: class_12_def list_all_iff)

lemma class_12_argmax: "argmax class_12 = 12"
proof -
  have nth: "class_12 ! j = (if j = 12 then 1 else 0)" if "j < 25" for j
    using that by (auto simp: class_12_def nth_append nth_Cons')
  have "first_max_index class_12 (argmax class_12)"
    by (rule argmax_first_max) (simp add: class_12_def)
  then have k: "argmax class_12 < 25" and "class_12 ! 12 \<le> class_12 ! argmax class_12"
    by (simp_all add: first_max_index_def class_12_length)
  then show ?thesis
    by (cases "argmax class_12 = 12") (simp_all add: nth)
qed

lemma tile_row:
  "i < 10000 \<Longrightarrow> last_axis_row 25 (data (np_tile class_12 10000)) i = class_12"
  using row_tile [of i 10000 class_12] by (simp add: np_tile_def class_12_length)

lemma tile_shape: "shape (np_tile class_12 10000) = [10000, 25]"
  by (simp add: np_tile_shape class_12_length)

lemma tile_range: "list_all (\<lambda>x. 0 \<le> x \<and> x \<le> 1) (data (np_tile class_12 10000))"
  using class_12_range by (auto simp: np_tile_def list_all_iff)

lemma tile_valid: "valid_predictions exact_runtime (np_tile class_12 10000)"
  unfolding valid_predictions_iff
  using tile_shape tile_range
  by (simp add: list_all_iff tile_row exact_runtime_def class_12_sum isclose_one)

lemma exact_runtime_opens:
  "opens_for_writing exact_runtime fs p \<longleftrightarrow> p \<noteq> [] \<and> fs p \<noteq> Some Directory"
  by (simp add: opens_for_writing_def exact_runtime_def)

lemma fmt_d_0: "fmt_d 0 = ''0''"
  by (simp add: fmt_d.simps digit_char_def)

lemma fmt_d_12: "fmt_d 12 = ''12''"
  by (simp add: fmt_d.simps digit_char_def)

lemma fmt_d_9999: "fmt_d 9999 = ''9999''"
  by (simp add: fmt_d.simps digit_char_def)

lemma csv_not_gz: "\<not> endswith ''submission.csv'' ''.gz''"
  by (simp add: endswith_def)

lemma csv_gz: "endswith ''submission.csv.gz'' ''.gz''"
  by (simp add: endswith_def)

lemma tile_sums:
  "list_all (\<lambda>i. isclose (fsum exact_runtime (last_axis_row 25 (data (np_tile class_12 10000)) i)) 1)
     [0..<10000]"
  by (simp add: list_all_iff tile_row exact_runtime_def class_12_sum isclose_one)

lemma full_2_range: "\<not> list_all (\<lambda>x. 0 \<le> x \<and> x \<le> 1) (data (np_full [10000, 25] 2))"
  by (simp add: np_full_data list_all_iff)

section \<open>Claims about the submission writer\<close>

text \<open>
  C1, as the code has it. For every predictions array of shape (10000, 25) with all
  entries in [0, 1] and every row sum, as the call computes it, within the tolerance of
  \<open>np.allclose\<close> of 1, and a destination that does not exist or with overwrite
  requested, and that can be opened for writing (it is not the empty path, it is not a
  directory, the operating system permits it), the call raises nothing and saves a text
  of 10001 lines: the header \<open>Id,Class\<close> and then, for each \<open>i\<close> from 0 to 9999 in
  order, the line \<open>i,c\<close> where \<open>c\<close> is the argmax of row \<open>i\<close> (the first index of a
  largest entry). The file holds this text, gzip-compressed when the name of the
  destination ends in \<open>.gz\<close>.
\<close>

theorem submission_file_written:
  assumes wf: "wf_ndarray predictions"
    and sh: "shape predictions = [10000, 25]"
    and range: "\<forall>x\<in>set (data predictions). 0 \<le> x \<and> x \<le> 1"
    and sums: "\<forall>i<10000.
      \<bar>fsum rt (last_axis_row 25 (data predictions) i) - 1\<bar> \<le> 1 / 100000000 + 1 / 100000"
    and dest: "fs output_file = None \<or> overwrite"
    and opens: "output_file \<noteq> []" "fs output_file \<noteq> Some Directory"
      "writable rt fs output_file"
  shows "\<exists>content.
    create_kaggle_submission_file rt predictions output_file overwrite fs =
      (Inr (), fs(output_file \<mapsto>
         (if endswith output_file ''.gz'' then Gzip content else File content))) \<and>
    length (lines_of content) = 10001 \<and>
    lines_of content ! 0 = ''Id,Class'' \<and>
    (\<forall>i<10000.
       lines_of content ! Suc i =
         fmt_d i @ '','' @ fmt_d (argmax (last_axis_row 25 (data predictions) i)) \<and>
       first_max_index (last_axis_row 25 (data predictions) i)
         (argmax (last_axis_row 25 (data predictions) i)))"
proof -
  let ?row = "\<lambda>i. last_axis_row 25 (data predictions) i"
  let ?ls = "''Id,Class'' # map (\<lambda>i. fmt_d i @ '','' @ fmt_d (argmax (?row i))) [0..<10000]"
  have valid: "valid_predictions rt predictions"
    using sh range sums
    by (simp add: valid_predictions_def all_ge_def all_le_def list_all_iff
        allclose_rows_iff [OF sh] isclose_one)
  have "\<not> path_exists fs output_file \<or> overwrite"
    using dest by (simp add: path_exists_def)
  moreover have "opens_for_writing rt fs output_file"
    using opens by (simp add: opens_for_writing_def)
  ultimately have "create_kaggle_submission_file rt predictions output_file overwrite fs =
      (Inr (), fs(output_file \<mapsto> saved output_file (unlines ?ls)))"
    using valid by (intro create_writes)
  then have written: "create_kaggle_submission_file rt predictions output_file overwrite fs =
      (Inr (), fs(output_file \<mapsto>
         (if endswith output_file ''.gz'' then Gzip (unlines ?ls) else File (unlines ?ls))))"
    by (simp only: saved_def)
  have len: "length (data predictions) = 10000 * 25"
    using wf sh by (simp add: wf_ndarray_def)
  have rows: "first_max_index (?row i) (argmax (?row i))" if "i < 10000" for i
  proof -
    have "length (?row i) = 25"
      using len that by (rule length_last_axis_row)
    then have "?row i \<noteq> []" by auto
    then show ?thesis by (rule argmax_first_max)
  qed
  have comma: "newline \<notin> set '',''"
    by (simp add: newline_def)
  have header: "newline \<notin> set ''Id,Class''"
    by (simp add: newline_def)
  have "\<forall>l\<in>set ?ls. newline \<notin> set l"
    using comma header by (auto simp: fmt_d_no_newline)
  then have readback: "lines_of (unlines ?ls) = ?ls"
    by (rule lines_of_unlines)
  have "length ?ls = 10001" by simp
  moreover have "?ls ! 0 = ''Id,Class''" by simp
  moreover have "\<forall>i<10000. ?ls ! Suc i = fmt_d i @ '','' @ fmt_d (argmax (?row i)) \<and>
      first_max_index (?row i) (argmax (?row i))"
    using rows by simp
  ultimately have "length (lines_of (unlines ?ls)) = 10001 \<and>
    lines_of (unlines ?ls) ! 0 = ''Id,Class'' \<and>
    (\<forall>i<10000. lines_of (unlines ?ls) ! Suc i = fmt_d i @ '','' @ fmt_d (argmax (?row i)) \<and>
      first_max_index (?row i) (argmax (?row i)))"
    by (simp only: readback)
  with written show ?thesis
    by blast
qed

text \<open>
  Predictions that put all probability on class 12, written to a new file: 10001 lines,
  the first row \<open>0,12\<close> and the last \<open>9999,12\<close>.
\<close>

theorem submission_file_written_witness:
  "wf_ndarray (np_tile class_12 10000) \<and>
   shape (np_tile class_12 10000) = [10000, 25] \<and>
   (\<exists>content. create_kaggle_submission_file exact_runtime (np_tile class_12 10000)
            ''submission.csv'' False Map.empty = (Inr (), [''submission.csv'' \<mapsto> File content]) \<and>
         length (lines_of content) = 10001 \<and> lines_of content ! 0 = ''Id,Class'' \<and>
         lines_of content ! 1 = ''0,12'' \<and> lines_of content ! 10000 = ''9999,12'')"
proof -
  let ?p = "np_tile class_12 10000"
  have wf: "wf_ndarray ?p" by (rule np_tile_wf)
  have sh: "shape ?p = [10000, 25]" by (rule tile_shape)
  have range: "\<forall>x\<in>set (data ?p). 0 \<le> x \<and> x \<le> 1"
    using tile_range by (simp add: list_all_iff)
  have sums: "\<forall>i<10000.
      \<bar>fsum exact_runtime (last_axis_row 25 (data ?p) i) - 1\<bar> \<le> 1 / 100000000 + 1 / 100000"
    by (simp add: tile_row exact_runtime_def class_12_sum)
  have dest: "Map.empty ''submission.csv'' = None \<or> False" by simp
  have o1: "''submission.csv'' \<noteq> []" and o2: "Map.empty ''submission.csv'' \<noteq> Some Directory"
    and o3: "writable exact_runtime Map.empty ''submission.csv''"
    by (simp_all add: exact_runtime_def)
  from submission_file_written [OF wf sh range sums dest o1 o2 o3]
  obtain content where
    w: "create_kaggle_submission_file exact_runtime ?p ''submission.csv'' False Map.empty =
          (Inr (), [''submission.csv'' \<mapsto> File content])"
    and len: "length (lines_of content) = 10001" and hd: "lines_of content ! 0 = ''Id,Class''"
    and rows: "\<forall>i<10000. lines_of content ! Suc i =
        fmt_d i @ '','' @ fmt_d (argmax (last_axis_row 25 (data ?p) i))"
    unfolding if_not_P [OF csv_not_gz] by blast
  have "lines_of content ! Suc 0 = ''0,12''"
    using rows [rule_format, of 0]
    by (simp add: tile_row class_12_argmax fmt_d_0 fmt_d_12)
  moreover have "lines_of content ! Suc 9999 = ''9999,12''"
    using rows [rule_format, of 9999]
    by (simp add: tile_row class_12_argmax fmt_d_12 fmt_d_9999)
  ultimately show ?thesis
    using wf sh w len hd by auto
qed

text \<open>
  C1 as stated fails at destinations that do not exist and yet do not receive the lines:
  on the empty path \<open>np.savetxt\<close> cannot open a file, the call raises \<open>IOError\<close> and
  writes nothing; on a name that ends in \<open>.gz\<close> the file written is gzip-compressed.
\<close>

theorem destination_not_a_text_file:
  "\<not> path_exists Map.empty [] \<and>
   create_kaggle_submission_file exact_runtime (np_tile class_12 10000) [] False Map.empty =
     (Inl IOError, Map.empty) \<and>
   \<not> path_exists Map.empty ''submission.csv.gz'' \<and>
   fst (create_kaggle_submission_file exact_runtime (np_tile class_12 10000)
     ''submission.csv.gz'' False Map.empty) = Inr () \<and>
   gzip_compressed (snd (create_kaggle_submission_file exact_runtime (np_tile class_12 10000)
     ''submission.csv.gz'' False Map.empty)) ''submission.csv.gz''"
proof -
  have none: "\<not> path_exists Map.empty p" for p :: string
    by (simp add: path_exists_def)
  have "create_kaggle_submission_file exact_runtime (np_tile class_12 10000) [] False Map.empty =
     (Inl IOError, Map.empty)"
    using tile_valid by (rule create_io_error) (simp_all add: none exact_runtime_opens)
  moreover have "create_kaggle_submission_file exact_runtime (np_tile class_12 10000)
      ''submission.csv.gz'' False Map.empty =
     (Inr (), [''submission.csv.gz'' \<mapsto> saved ''submission.csv.gz'' (unlines (''Id,Class'' #
        map (\<lambda>i. fmt_d i @ '','' @
          fmt_d (argmax (last_axis_row 25 (data (np_tile class_12 10000)) i))) [0..<10000]))])"
    using tile_valid by (rule create_writes) (simp_all add: none exact_runtime_opens)
  ultimately show ?thesis
    using none by (simp add: saved_def csv_gz gzip_compressed_def)
qed

text \<open>
  C2. For every predictions array whose shape is not (10000, 25) the call raises the
  shape error, a \<open>ValueError\<close> with the message about the shape, whatever the other
  arguments are, and the file system is as before the call: nothing was written.
\<close>

theorem shape_mismatch_raises:
  assumes "shape predictions \<noteq> [10000, 25]"
  shows "create_kaggle_submission_file rt predictions output_file overwrite fs =
    (Inl (ValueError ''predictions should be an array of shape (10000, 25).''), fs)"
  using assms by (rule create_shape_error)

text \<open>
  Predictions for 10 classes, with overwrite requested on an existing file: the shape
  error, and the file keeps its contents.
\<close>

theorem shape_mismatch_raises_witness:
  "shape (np_full [10000, 10] (1 / 10)) \<noteq> [10000, 25] \<and>
   create_kaggle_submission_file exact_runtime (np_full [10000, 10] (1 / 10)) ''submission.csv''
     True [''submission.csv'' \<mapsto> File ''Id,Class''] =
    (Inl (ValueError ''predictions should be an array of shape (10000, 25).''),
     [''submission.csv'' \<mapsto> File ''Id,Class''])"
  using shape_mismatch_raises [of "np_full [10000, 10] (1 / 10)" exact_runtime
      "''submission.csv''" True "[''submission.csv'' \<mapsto> File ''Id,Class'']"]
  by (simp add: np_full_shape)

text \<open>
  C3, as the code has it. For every predictions array of shape (10000, 25): if an entry
  lies outside [0, 1] the call raises the \<open>ValueError\<close> about probabilities; if all
  entries are in [0, 1] and the sum of some row, as the call computes it, differs from 1
  by more than the tolerance \<open>1e-08 + 1e-05\<close> of \<open>np.allclose\<close>, it raises the
  \<open>ValueError\<close> about row sums. In both cases nothing is written.
\<close>

theorem invalid_probabilities_raise:
  assumes "shape predictions = [10000, 25]"
  shows
    "((\<exists>x\<in>set (data predictions). x < 0 \<or> 1 < x) \<longrightarrow>
        create_kaggle_submission_file rt predictions output_file overwrite fs =
          (Inl (ValueError ''predictions should be an array of probabilities in [0, 1].''), fs)) \<and>
     ((\<forall>x\<in>set (data predictions). 0 \<le> x \<and> x \<le> 1) \<and>
      (\<exists>i<10000. 1 / 100000000 + 1 / 100000 <
          \<bar>fsum rt (last_axis_row 25 (data predictions) i) - 1\<bar>) \<longrightarrow>
        create_kaggle_submission_file rt predictions output_file overwrite fs =
          (Inl (ValueError ''predictions rows should sum to one.''), fs)) \<and>
     ((\<exists>x\<in>set (data predictions). x < 0 \<or> 1 < x) \<or>
      (\<exists>i<10000. 1 / 100000000 + 1 / 100000 <
          \<bar>fsum rt (last_axis_row 25 (data predictions) i) - 1\<bar>) \<longrightarrow>
        create_kaggle_submission_file rt predictions output_file overwrite fs =
          (Inl (ValueError ''predictions should be an array of probabilities in [0, 1].''), fs) \<or>
        create_kaggle_submission_file rt predictions output_file overwrite fs =
          (Inl (ValueError ''predictions rows should sum to one.''), fs))"
proof -
  let ?r = "create_kaggle_submission_file rt predictions output_file overwrite fs"
  let ?out = "\<exists>x\<in>set (data predictions). x < 0 \<or> 1 < x"
  let ?off = "\<exists>i<10000. 1 / 100000000 + 1 / 100000 <
          \<bar>fsum rt (last_axis_row 25 (data predictions) i) - 1\<bar>"
  have r1: "?r =
      (Inl (ValueError ''predictions should be an array of probabilities in [0, 1].''), fs)"
    if "?out"
  proof -
    from that obtain x where "x \<in> set (data predictions)" "\<not> (0 \<le> x \<and> x \<le> 1)"
      by auto
    then have "\<not> (all_ge predictions 0 \<and> all_le predictions 1)"
      unfolding all_ge_le_iff list_all_iff by blast
    with assms show ?thesis
      by (rule create_range_error)
  qed
  have r2: "?r = (Inl (ValueError ''predictions rows should sum to one.''), fs)"
    if "\<forall>x\<in>set (data predictions). 0 \<le> x \<and> x \<le> 1" "?off"
  proof -
    have "all_ge predictions 0" "all_le predictions 1"
      using that(1) by (auto simp: all_ge_def all_le_def list_all_iff)
    moreover have "\<not> allclose (sum_last_axis rt predictions) 1"
      using that(2) by (auto simp: allclose_rows_iff [OF assms] isclose_one)
    ultimately show ?thesis
      using assms by (intro create_sum_error)
  qed
  have r3: "?r =
      (Inl (ValueError ''predictions should be an array of probabilities in [0, 1].''), fs) \<or>
      ?r = (Inl (ValueError ''predictions rows should sum to one.''), fs)"
    if "?out \<or> ?off"
  proof (cases "?out")
    case True
    then show ?thesis using r1 by blast
  next
    case False
    then have "\<forall>x\<in>set (data predictions). 0 \<le> x \<and> x \<le> 1"
      by (auto simp: not_less)
    moreover have "?off" using that False by blast
    ultimately show ?thesis using r2 by blast
  qed
  show ?thesis
    using r1 r2 r3 by blast
qed

text \<open>
  Entries all equal to 2 raise the range error; entries all equal to 0 (rows summing
  to 0) raise the row-sum error.
\<close>

theorem invalid_probabilities_raise_witness:
  "create_kaggle_submission_file exact_runtime (np_full [10000, 25] 2) ''submission.csv'' False
     Map.empty =
     (Inl (ValueError ''predictions should be an array of probabilities in [0, 1].''), Map.empty) \<and>
   create_kaggle_submission_file exact_runtime (np_full [10000, 25] 0) ''submission.csv'' False
     Map.empty =
     (Inl (ValueError ''predictions rows should sum to one.''), Map.empty)"
proof -
  have "\<exists>i<10000::nat. 1 / 100000000 + 1 / 100000 <
      \<bar>fsum exact_runtime (last_axis_row 25 (data (np_full [10000, 25] 0)) i) - 1\<bar>"
    by (rule exI [of _ 0])
      (simp add: np_full_data row_replicate exact_runtime_def sum_list_replicate_real)
  then show ?thesis
    using invalid_probabilities_raise [OF np_full_shape, of 2 exact_runtime "''submission.csv''"
        False Map.empty]
      invalid_probabilities_raise [OF np_full_shape, of 0 exact_runtime "''submission.csv''"
        False Map.empty]
    by (simp add: np_full_data)
qed

text \<open>
  C3 as stated fails for arrays of another shape: with 10 columns and all entries 2 the
  array has entries outside [0, 1] and rows that do not sum to 1, and the call raises
  the shape error, not one of the two errors about the values.
\<close>

theorem shape_checked_before_probabilities:
  "\<not> list_all (\<lambda>x. 0 \<le> x \<and> x \<le> 1) (data (np_full [10000, 10] 2)) \<and>
   create_kaggle_submission_file exact_runtime (np_full [10000, 10] 2) ''submission.csv'' False
     Map.empty =
     (Inl (ValueError ''predictions should be an array of shape (10000, 25).''), Map.empty) \<and>
   fst (create_kaggle_submission_file exact_runtime (np_full [10000, 10] 2) ''submission.csv''
     False Map.empty) \<noteq>
     Inl (ValueError ''predictions should be an array of probabilities in [0, 1].'') \<and>
   fst (create_kaggle_submission_file exact_runtime (np_full [10000, 10] 2) ''submission.csv''
     False Map.empty) \<noteq>
     Inl (ValueError ''predictions rows should sum to one.'')"
proof -
  have "data (np_full [10000, 10] 2) = replicate 100000 2"
    by (simp add: np_full_def)
  then have "\<not> list_all (\<lambda>x. 0 \<le> x \<and> x \<le> 1) (data (np_full [10000, 10] 2))"
    by (simp add: list_all_iff)
  then show ?thesis
    by (simp add: create_shape_error np_full_shape)
qed

text \<open>
  C4, as the code has it. When the destination exists and overwrite is not requested,
  every call raises an error and leaves the file system unchanged. The error is that of
  the first check that fails: the \<open>ValueError\<close> about the shape; else the one about
  probabilities; else the one about row sums (as the call computes them, within the
  tolerance of \<open>np.allclose\<close>); and for predictions that pass these three checks the
  \<open>ValueError\<close> \<open>File already exists at <path>\<close>. In particular, after a call that
  wrote the file, a second call on the same path without overwrite, with predictions
  that pass the three checks, raises this last error and leaves the file as the first
  call wrote it.
\<close>

theorem overwrite_refused:
  "let r = create_kaggle_submission_file rt predictions output_file False fs;
       shape_ok = (shape predictions = [10000, 25]);
       range_ok = list_all (\<lambda>x. 0 \<le> x \<and> x \<le> 1) (data predictions);
       sums_ok = list_all (\<lambda>i. isclose (fsum rt (last_axis_row 25 (data predictions) i)) 1)
                   [0..<10000];
       refused = (Inl (ValueError (''File already exists at '' @ output_file)))
   in (fs output_file \<noteq> None \<longrightarrow>
         (\<not> shape_ok \<longrightarrow>
            r = (Inl (ValueError ''predictions should be an array of shape (10000, 25).''),
                 fs)) \<and>
         (shape_ok \<and> \<not> range_ok \<longrightarrow>
            r = (Inl (ValueError
                   ''predictions should be an array of probabilities in [0, 1].''), fs)) \<and>
         (shape_ok \<and> range_ok \<and> \<not> sums_ok \<longrightarrow>
            r = (Inl (ValueError ''predictions rows should sum to one.''), fs)) \<and>
         (shape_ok \<and> range_ok \<and> sums_ok \<longrightarrow> r = (refused, fs))) \<and>
      (shape_ok \<and> range_ok \<and> sums_ok \<and>
       create_kaggle_submission_file rt first output_file overwrite fs0 = (Inr (), fs') \<longrightarrow>
         create_kaggle_submission_file rt predictions output_file False fs' = (refused, fs'))"
proof -
  let ?r = "create_kaggle_submission_file rt predictions output_file False fs"
  let ?range = "list_all (\<lambda>x. 0 \<le> x \<and> x \<le> 1) (data predictions)"
  let ?sums = "list_all (\<lambda>i. isclose (fsum rt (last_axis_row 25 (data predictions) i)) 1)
                   [0..<10000]"
  let ?refused = "Inl (ValueError (''File already exists at '' @ output_file))"
  have range: "all_ge predictions 0 \<and> all_le predictions 1 \<longleftrightarrow> ?range"
    by (rule all_ge_le_iff)
  have valid: "valid_predictions rt predictions \<longleftrightarrow>
      shape predictions = [10000, 25] \<and> ?range \<and> ?sums"
    by (rule valid_predictions_iff)
  have e1: "?r = (Inl (ValueError ''predictions should be an array of shape (10000, 25).''), fs)"
    if "shape predictions \<noteq> [10000, 25]"
    using that by (rule create_shape_error)
  have e2: "?r = (Inl (ValueError ''predictions should be an array of probabilities in [0, 1].''),
              fs)"
    if "shape predictions = [10000, 25]" "\<not> ?range"
    using that range by (intro create_range_error) simp_all
  have e3: "?r = (Inl (ValueError ''predictions rows should sum to one.''), fs)"
    if "shape predictions = [10000, 25]" "?range" "\<not> ?sums"
  proof -
    have "\<not> valid_predictions rt predictions"
      using that valid by simp
    then have "\<not> allclose (sum_last_axis rt predictions) 1"
      using that(1,2) range by (simp add: valid_predictions_def)
    then show ?thesis
      using that(1,2) range by (intro create_sum_error) simp_all
  qed
  have e4: "?r = (?refused, fs)"
    if "fs output_file \<noteq> None" "shape predictions = [10000, 25]" "?range" "?sums"
    using that valid by (intro create_exists_error) (simp_all add: path_exists_def)
  have twice: "create_kaggle_submission_file rt predictions output_file False fs' =
      (?refused, fs')"
    if "shape predictions = [10000, 25]" "?range" "?sums"
      "create_kaggle_submission_file rt first output_file overwrite fs0 = (Inr (), fs')"
  proof -
    have "path_exists fs' output_file"
      using that(4) by (rule create_success_file_exists)
    then show ?thesis
      using that(1-3) valid by (intro create_exists_error) simp_all
  qed
  show ?thesis
    unfolding Let_def
  proof (intro conjI)
    show "fs output_file \<noteq> None \<longrightarrow>
      (shape predictions \<noteq> [10000, 25] \<longrightarrow>
         ?r = (Inl (ValueError ''predictions should be an array of shape (10000, 25).''), fs)) \<and>
      (shape predictions = [10000, 25] \<and> \<not> ?range \<longrightarrow>
         ?r = (Inl (ValueError ''predictions should be an array of probabilities in [0, 1].''),
               fs)) \<and>
      (shape predictions = [10000, 25] \<and> ?range \<and> \<not> ?sums \<longrightarrow>
         ?r = (Inl (ValueError ''predictions rows should sum to one.''), fs)) \<and>
      (shape predictions = [10000, 25] \<and> ?range \<and> ?sums \<longrightarrow> ?r = (?refused, fs))"
      using e1 e2 e3 e4 by blast
    show "shape predictions = [10000, 25] \<and> ?range \<and> ?sums \<and>
       create_kaggle_submission_file rt first output_file overwrite fs0 = (Inr (), fs') \<longrightarrow>
         create_kaggle_submission_file rt predictions output_file False fs' = (?refused, fs')"
      using twice by blast
  qed
qed

text \<open>
  On an existing file: predictions on class 12 are refused with the error about the
  file, entries all equal to 2 with the range error. Written twice to a new path, the
  predictions on class 12 are refused the second time.
\<close>

theorem overwrite_refused_witness:
  "create_kaggle_submission_file exact_runtime (np_tile class_12 10000) ''submission.csv'' False
     [''submission.csv'' \<mapsto> File ''Id,Class''] =
     (Inl (ValueError ''File already exists at submission.csv''),
      [''submission.csv'' \<mapsto> File ''Id,Class'']) \<and>
   create_kaggle_submission_file exact_runtime (np_full [10000, 25] 2) ''submission.csv'' False
     [''submission.csv'' \<mapsto> File ''Id,Class''] =
     (Inl (ValueError ''predictions should be an array of probabilities in [0, 1].''),
      [''submission.csv'' \<mapsto> File ''Id,Class'']) \<and>
   fst (create_kaggle_submission_file exact_runtime (np_tile class_12 10000) ''submission.csv''
     False Map.empty) = Inr () \<and>
   fst (create_kaggle_submission_file exact_runtime (np_tile class_12 10000) ''submission.csv''
     False (snd (create_kaggle_submission_file exact_runtime (np_tile class_12 10000)
        ''submission.csv'' False Map.empty))) =
     Inl (ValueError ''File already exists at submission.csv'')"
proof -
  let ?p = "np_tile class_12 10000"
  let ?fs = "[''submission.csv'' \<mapsto> File ''Id,Class'']"
  let ?first = "create_kaggle_submission_file exact_runtime ?p ''submission.csv'' False Map.empty"
  have f1: "fst ?first = Inr ()"
    using tile_valid
    by (subst create_writes) (simp_all add: path_exists_def exact_runtime_opens)
  then have first: "?first = (Inr (), snd ?first)"
    by (metis prod.collapse)
  have ex: "?fs ''submission.csv'' \<noteq> None"
    by simp
  have a: "create_kaggle_submission_file exact_runtime ?p ''submission.csv'' False ?fs =
      (Inl (ValueError (''File already exists at '' @ ''submission.csv'')), ?fs)"
    using overwrite_refused [of exact_runtime ?p "''submission.csv''" ?fs]
      ex tile_shape tile_range tile_sums
    unfolding Let_def by blast
  have b: "create_kaggle_submission_file exact_runtime (np_full [10000, 25] 2) ''submission.csv''
      False ?fs =
      (Inl (ValueError ''predictions should be an array of probabilities in [0, 1].''), ?fs)"
    using overwrite_refused [of exact_runtime "np_full [10000, 25] 2" "''submission.csv''" ?fs]
      ex np_full_shape [of "[10000, 25]" 2] full_2_range
    unfolding Let_def by blast
  have c: "create_kaggle_submission_file exact_runtime ?p ''submission.csv'' False (snd ?first) =
      (Inl (ValueError (''File already exists at '' @ ''submission.csv'')), snd ?first)"
    using overwrite_refused [of exact_runtime ?p "''submission.csv''" _ ?p False Map.empty
        "snd ?first"]
      first tile_shape tile_range tile_sums
    unfolding Let_def by blast
  show ?thesis
    using a b c f1 by simp
qed

text \<open>
  C4 as stated fails: with an existing destination and no overwrite, predictions of the
  wrong shape raise the shape error, not the error about the existing file.
\<close>

theorem invalid_predictions_before_overwrite_check:
  "[''submission.csv'' \<mapsto> File ''Id,Class''] ''submission.csv'' \<noteq> None \<and>
   create_kaggle_submission_file exact_runtime (np_full [10000, 10] (1 / 10)) ''submission.csv''
     False [''submission.csv'' \<mapsto> File ''Id,Class''] =
     (Inl (ValueError ''predictions should be an array of shape (10000, 25).''),
      [''submission.csv'' \<mapsto> File ''Id,Class'']) \<and>
   fst (create_kaggle_submission_file exact_runtime (np_full [10000, 10] (1 / 10))
     ''submission.csv'' False [''submission.csv'' \<mapsto> File ''Id,Class'']) \<noteq>
     Inl (ValueError ''File already exists at submission.csv'')"
  by (simp add: create_shape_error np_full_shape)

text \<open>
  C10. The checks run in the order shape, entry range, row sums (as the call computes
  them), destination: the error raised is that of the first check that fails, whatever
  the later checks would say. The file is opened only after all four pass: then the call
  raises \<open>IOError\<close> if the destination cannot be opened for writing and succeeds
  otherwise, and the file system changes only in this last case.
\<close>

theorem validation_order:
  "let r = create_kaggle_submission_file rt predictions output_file overwrite fs;
       shape_ok = (shape predictions = [10000, 25]);
       range_ok = list_all (\<lambda>x. 0 \<le> x \<and> x \<le> 1) (data predictions);
       sums_ok = list_all (\<lambda>i. isclose (fsum rt (last_axis_row 25 (data predictions) i)) 1)
                   [0..<10000];
       dest_ok = (fs output_file = None \<or> overwrite);
       opens = opens_for_writing rt fs output_file
   in (\<not> shape_ok \<longrightarrow>
         r = (Inl (ValueError ''predictions should be an array of shape (10000, 25).''), fs)) \<and>
      (shape_ok \<and> \<not> range_ok \<longrightarrow>
         r = (Inl (ValueError ''predictions should be an array of probabilities in [0, 1].''),
              fs)) \<and>
      (shape_ok \<and> range_ok \<and> \<not> sums_ok \<longrightarrow>
         r = (Inl (ValueError ''predictions rows should sum to one.''), fs)) \<and>
      (shape_ok \<and> range_ok \<and> sums_ok \<and> \<not> dest_ok \<longrightarrow>
         r = (Inl (ValueError (''File already exists at '' @ output_file)), fs)) \<and>
      (shape_ok \<and> range_ok \<and> sums_ok \<and> dest_ok \<and> \<not> opens \<longrightarrow> r = (Inl IOError, fs)) \<and>
      (shape_ok \<and> range_ok \<and> sums_ok \<and> dest_ok \<and> opens \<longrightarrow> fst r = Inr ()) \<and>
      (snd r \<noteq> fs \<longrightarrow> shape_ok \<and> range_ok \<and> sums_ok \<and> dest_ok \<and> opens)"
proof -
  let ?r = "create_kaggle_submission_file rt predictions output_file overwrite fs"
  let ?range = "list_all (\<lambda>x. 0 \<le> x \<and> x \<le> 1) (data predictions)"
  let ?sums = "list_all (\<lambda>i. isclose (fsum rt (last_axis_row 25 (data predictions) i)) 1)
                   [0..<10000]"
  let ?dest = "fs output_file = None \<or> overwrite"
  let ?opens = "opens_for_writing rt fs output_file"
  have range: "all_ge predictions 0 \<and> all_le predictions 1 \<longleftrightarrow> ?range"
    by (rule all_ge_le_iff)
  have valid: "valid_predictions rt predictions \<longleftrightarrow>
      shape predictions = [10000, 25] \<and> ?range \<and> ?sums"
    by (rule valid_predictions_iff)
  have dest: "path_exists fs output_file \<and> \<not> overwrite \<longleftrightarrow> \<not> ?dest"
    by (simp add: path_exists_def)
  have e1: "?r = (Inl (ValueError ''predictions should be an array of shape (10000, 25).''), fs)"
    if "shape predictions \<noteq> [10000, 25]"
    using that by (rule create_shape_error)
  have e2: "?r = (Inl (ValueError ''predictions should be an array of probabilities in [0, 1].''),
              fs)"
    if "shape predictions = [10000, 25]" "\<not> ?range"
    using that range by (intro create_range_error) simp_all
  have e3: "?r = (Inl (ValueError ''predictions rows should sum to one.''), fs)"
    if "shape predictions = [10000, 25]" "?range" "\<not> ?sums"
  proof -
    have "\<not> valid_predictions rt predictions"
      using that valid by simp
    then have "\<not> allclose (sum_last_axis rt predictions) 1"
      using that(1,2) range by (simp add: valid_predictions_def)
    then show ?thesis
      using that(1,2) range by (intro create_sum_error) simp_all
  qed
  have e4: "?r = (Inl (ValueError (''File already exists at '' @ output_file)), fs)"
    if "shape predictions = [10000, 25]" "?range" "?sums" "\<not> ?dest"
    using that valid dest by (intro create_exists_error) simp_all
  have e5: "?r = (Inl IOError, fs)"
    if "shape predictions = [10000, 25]" "?range" "?sums" "?dest" "\<not> ?opens"
    using that valid dest by (intro create_io_error) auto
  have e6: "fst ?r = Inr ()"
    if "shape predictions = [10000, 25]" "?range" "?sums" "?dest" "?opens"
    using that valid dest by (subst create_writes) auto
  have e7: "shape predictions = [10000, 25] \<and> ?range \<and> ?sums \<and> ?dest \<and> ?opens"
    if "snd ?r \<noteq> fs"
  proof (rule ccontr)
    assume "\<not> (shape predictions = [10000, 25] \<and> ?range \<and> ?sums \<and> ?dest \<and> ?opens)"
    then consider "shape predictions \<noteq> [10000, 25]"
      | "shape predictions = [10000, 25]" "\<not> ?range"
      | "shape predictions = [10000, 25]" "?range" "\<not> ?sums"
      | "shape predictions = [10000, 25]" "?range" "?sums" "\<not> ?dest"
      | "shape predictions = [10000, 25]" "?range" "?sums" "?dest" "\<not> ?opens"
      by blast
    then have "snd ?r = fs"
    proof cases
      case 1
      then show ?thesis by (simp only: e1 [OF 1] snd_conv)
    next
      case 2
      then show ?thesis by (simp only: e2 [OF 2] snd_conv)
    next
      case 3
      then show ?thesis by (simp only: e3 [OF 3] snd_conv)
    next
      case 4
      then show ?thesis by (simp only: e4 [OF 4] snd_conv)
    next
      case 5
      then show ?thesis by (simp only: e5 [OF 5] snd_conv)
    qed
    with that show False by contradiction
  qed
  show ?thesis
    unfolding Let_def
  proof (intro conjI)
    show "shape predictions \<noteq> [10000, 25] \<longrightarrow>
      ?r = (Inl (ValueError ''predictions should be an array of shape (10000, 25).''), fs)"
      using e1 by blast
    show "shape predictions = [10000, 25] \<and> \<not> ?range \<longrightarrow> ?r =
        (Inl (ValueError ''predictions should be an array of probabilities in [0, 1].''), fs)"
      using e2 by blast
    show "shape predictions = [10000, 25] \<and> ?range \<and> \<not> ?sums \<longrightarrow>
      ?r = (Inl (ValueError ''predictions rows should sum to one.''), fs)"
      using e3 by blast
    show "shape predictions = [10000, 25] \<and> ?range \<and> ?sums \<and> \<not> ?dest \<longrightarrow>
      ?r = (Inl (ValueError (''File already exists at '' @ output_file)), fs)"
      using e4 by blast
    show "shape predictions = [10000, 25] \<and> ?range \<and> ?sums \<and> ?dest \<and> \<not> ?opens \<longrightarrow>
      ?r = (Inl IOError, fs)"
      using e5 by blast
    show "shape predictions = [10000, 25] \<and> ?range \<and> ?sums \<and> ?dest \<and> ?opens \<longrightarrow>
      fst ?r = Inr ()"
      using e6 by blast
    show "snd ?r \<noteq> fs \<longrightarrow>
      shape predictions = [10000, 25] \<and> ?range \<and> ?sums \<and> ?dest \<and> ?opens"
      using e7 by blast
  qed
qed

text \<open>
  Entries all equal to 2 on an existing destination without overwrite violate the range
  check, the row-sum check and the destination check: the range error is raised.
\<close>

theorem validation_order_witness:
  "create_kaggle_submission_file exact_runtime (np_full [10000, 25] 2) ''submission.csv'' False
     [''submission.csv'' \<mapsto> File ''Id,Class''] =
     (Inl (ValueError ''predictions should be an array of probabilities in [0, 1].''),
      [''submission.csv'' \<mapsto> File ''Id,Class''])"
proof -
  have "shape (np_full [10000, 25] 2) = [10000, 25]"
    by (rule np_full_shape)
  then show ?thesis
    using full_2_range
      validation_order [of exact_runtime "np_full [10000, 25] 2" "''submission.csv''" False
        "[''submission.csv'' \<mapsto> File ''Id,Class'']"]
    unfolding Let_def by blast
qed

section \<open>Properties of the batch data provider\<close>

lemma reset_pass_fields:
  "source (reset_pass sh p) = source p"
  "batch_size (reset_pass sh p) = batch_size p"
  "num_classes (reset_pass sh p) = num_classes p"
  "shuffle_flag (reset_pass sh p) = shuffle_flag p"
  "cursor (reset_pass sh p) = 0"
  "dataset_size (reset_pass sh p) = dataset_size p"
  by (simp_all add: reset_pass_def dataset_size_def split: prod.splits)

lemma reset_pass_order:
  "current_order (reset_pass sh p) =
     (if shuffle_flag p then fst (sh (rng p) (dataset_size p)) else [0..<dataset_size p])"
  by (simp add: reset_pass_def split: prod.splits)

lemma reset_pass_rng:
  "rng (reset_pass sh p) = (if shuffle_flag p then snd (sh (rng p) (dataset_size p)) else rng p)"
  by (simp add: reset_pass_def split: prod.splits)

lemma reset_pass_cursor_update: "reset_pass sh (p\<lparr>cursor := c\<rparr>) = reset_pass sh p"
  by (simp add: reset_pass_def dataset_size_def split: prod.splits)

lemma reset_pass_inv:
  assumes "permuting sh" "0 < batch_size p" "batch_size p \<le> dataset_size p"
  shows "provider_inv (reset_pass sh p)"
  using assms
  by (simp add: provider_inv_def reset_pass_fields reset_pass_order permuting_def)

lemma provider_inv_length: "provider_inv p \<Longrightarrow> length (current_order p) = dataset_size p"
  by (metis provider_inv_def length_upt minus_nat.diff_0 size_mset)

lemma gather_cursor_update: "gather (p\<lparr>cursor := c\<rparr>) idx = gather p idx"
  by (simp add: gather_def)

lemma order_slice_cursor_update: "order_slice (p\<lparr>cursor := c\<rparr>) k = order_slice p k"
  by (simp add: order_slice_def)

lemma next_batch_within:
  assumes "cursor p + batch_size p \<le> dataset_size p"
  shows "next_batch sh p =
    (gather p (order_slice p (cursor p)), p\<lparr>cursor := cursor p + batch_size p\<rparr>)"
  using assms by (simp add: next_batch_def)

lemma next_batch_exhausted:
  assumes "dataset_size p < cursor p + batch_size p"
  shows "next_batch sh p = (EndOfPass, reset_pass sh p)"
  using assms by (simp add: next_batch_def)

lemma pull_within_pass:
  assumes "cursor p + k * batch_size p \<le> dataset_size p"
  shows "pull sh k p =
    (map (\<lambda>j. gather p (order_slice p (cursor p + j * batch_size p))) [0..<k],
     p\<lparr>cursor := cursor p + k * batch_size p\<rparr>)"
  using assms
proof (induction k arbitrary: p)
  case 0
  then show ?case by simp
next
  case (Suc k)
  let ?p' = "p\<lparr>cursor := cursor p + batch_size p\<rparr>"
  have step: "next_batch sh p = (gather p (order_slice p (cursor p)), ?p')"
    using Suc.prems by (intro next_batch_within) simp
  have "cursor ?p' + k * batch_size ?p' \<le> dataset_size ?p'"
    using Suc.prems by (simp add: dataset_size_def)
  then have rest: "pull sh k ?p' =
    (map (\<lambda>j. gather ?p' (order_slice ?p' (cursor ?p' + j * batch_size ?p'))) [0..<k],
     ?p'\<lparr>cursor := cursor ?p' + k * batch_size ?p'\<rparr>)"
    by (rule Suc.IH)
  have "map (\<lambda>j. gather p (order_slice p (cursor p + j * batch_size p))) [0..<Suc k] =
      gather p (order_slice p (cursor p)) #
      map (\<lambda>j. gather p (order_slice p (cursor p + Suc j * batch_size p))) [0..<k]"
    by (simp only: map_upt_Suc) simp
  then show ?case
    by (simp add: step rest gather_cursor_update order_slice_cursor_update add.assoc)
qed

lemma pull_append:
  "pull sh (a + b) p =
     (case pull sh a p of (xs, p') \<Rightarrow> (case pull sh b p' of (ys, p'') \<Rightarrow> (xs @ ys, p'')))"
  by (induction a arbitrary: p) (simp_all split: prod.splits)

lemma num_batches_bounds:
  assumes "0 < batch_size p"
  shows "num_batches p * batch_size p \<le> dataset_size p"
    and "dataset_size p < num_batches p * batch_size p + batch_size p"
proof -
  have "dataset_size p = num_batches p * batch_size p + dataset_size p mod batch_size p"
    by (simp add: num_batches_def)
  moreover have "dataset_size p mod batch_size p < batch_size p"
    using assms by simp
  ultimately show "num_batches p * batch_size p \<le> dataset_size p"
    and "dataset_size p < num_batches p * batch_size p + batch_size p"
    by linarith+
qed

lemma pull_pass:
  assumes "0 < batch_size p" "cursor p = 0"
  shows "pull sh (num_batches p) p = (pass_batches p, p\<lparr>cursor := num_batches p * batch_size p\<rparr>)"
  using pull_within_pass [of p "num_batches p" sh] num_batches_bounds(1) [OF assms(1)] assms(2)
  by (simp add: pass_batches_def)

lemma pull_pass_and_signal:
  assumes "0 < batch_size p" "cursor p = 0"
  shows "pull sh (Suc (num_batches p)) p = (pass_batches p @ [EndOfPass], reset_pass sh p)"
proof -
  let ?q = "p\<lparr>cursor := num_batches p * batch_size p\<rparr>"
  have "dataset_size ?q < cursor ?q + batch_size ?q"
    using num_batches_bounds(2) [OF assms(1)] by (simp add: dataset_size_def)
  then have "next_batch sh ?q = (EndOfPass, reset_pass sh p)"
    by (simp add: next_batch_exhausted reset_pass_cursor_update)
  then have "pull sh (num_batches p + 1) p = (pass_batches p @ [EndOfPass], reset_pass sh p)"
    unfolding pull_append by (simp add: pull_pass [OF assms])
  then show ?thesis by simp
qed

lemma concat_slices:
  "concat (map (\<lambda>k. take b (drop (k * b) xs)) [0..<n]) = take (n * b) xs"
proof (induction n)
  case 0
  then show ?case by simp
next
  case (Suc n)
  have "take (n * b + b) xs = take (n * b) xs @ take b (drop (n * b) xs)"
    by (rule take_add)
  with Suc show ?case by (simp add: add.commute)
qed

lemma pass_covers_order:
  assumes "provider_inv p" "batch_size p dvd dataset_size p"
  shows "concat (map (\<lambda>k. order_slice p (k * batch_size p)) [0..<num_batches p]) = current_order p"
proof -
  have "num_batches p * batch_size p = dataset_size p"
    using assms(2) by (simp add: num_batches_def)
  then show ?thesis
    unfolding order_slice_def concat_slices
    using provider_inv_length [OF assms(1)] by simp
qed

lemma pass_batches_are_batches: "EndOfPass \<notin> set (pass_batches p)"
  by (auto simp: pass_batches_def gather_def)

lemma construct_error_iff:
  "construct_provider sh load entropy which_set bs flag seed = Inl ConfigurationError \<longleftrightarrow>
     \<not> valid_split which_set \<or> bs \<le> 0 \<or> int (length (inputs (load which_set))) < bs"
  by (auto simp: construct_provider_def Let_def)

lemma construct_ok:
  assumes "construct_provider sh load entropy which_set bs flag seed = Inr p"
  shows "valid_split which_set" "0 < bs" "bs \<le> int (length (inputs (load which_set)))"
    and "source p = load which_set" "batch_size p = nat bs"
    and "num_classes p = classes (load which_set)" "shuffle_flag p = flag" "cursor p = 0"
    and "dataset_size p = length (inputs (load which_set))"
    and "current_order p =
      (if flag then fst (sh (case seed of Some s \<Rightarrow> s | None \<Rightarrow> entropy)
                          (length (inputs (load which_set))))
       else [0..<length (inputs (load which_set))])"
    and "rng p =
      (if flag then snd (sh (case seed of Some s \<Rightarrow> s | None \<Rightarrow> entropy)
                          (length (inputs (load which_set))))
       else (case seed of Some s \<Rightarrow> s | None \<Rightarrow> entropy))"
  using assms
  by (auto simp: construct_provider_def Let_def reset_pass_fields reset_pass_order reset_pass_rng
      dataset_size_def split: if_splits)

lemma construct_inv:
  assumes "permuting sh" "construct_provider sh load entropy which_set bs flag seed = Inr p"
  shows "provider_inv p"
proof -
  note ok = construct_ok [OF assms(2)]
  have "mset (current_order p) = mset [0..<dataset_size p]"
    using assms(1) by (simp add: ok permuting_def)
  moreover have "0 < batch_size p" "batch_size p \<le> dataset_size p"
    using ok(2,3) by (simp_all add: ok(5,9))
  ultimately show ?thesis
    by (simp add: provider_inv_def)
qed

lemma mset_rotate_eq: "mset (rotate n xs) = mset xs"
proof -
  have "mset (rotate n xs) =
      mset (take (n mod length xs) xs @ drop (n mod length xs) xs)"
    by (simp only: rotate_drop_take mset_append add.commute)
  then show ?thesis by (simp only: append_take_drop_id)
qed

lemma rotating_shuffle_permuting: "permuting rotating_shuffle"
  by (simp add: permuting_def rotating_shuffle_def mset_rotate_eq del: mset_upt)

lemma toy_dataset_size: "length (inputs (toy_dataset n)) = n"
  by (simp add: toy_dataset_def)

lemma construct_succeeds:
  assumes "valid_split which_set" "0 < bs" "bs \<le> int (length (inputs (load which_set)))"
  shows "\<exists>p. construct_provider sh load entropy which_set bs flag seed = Inr p"
  using assms by (simp add: construct_provider_def Let_def)

lemma valid_split_train: "valid_split ''train''"
  by (simp add: valid_split_def)

lemma filter_eq_upt: "filter (\<lambda>j. j = m) [0..<c] = (if m < c then [m] else [])"
  by (induction c) auto

lemma one_hot_props:
  assumes "0 \<le> k" "k < int c"
  shows "length (one_hot c k) = c"
    and "one_hot c k ! nat k = 1"
    and "\<forall>j<c. j \<noteq> nat k \<longrightarrow> one_hot c k ! j = 0"
    and "count_list (one_hot c k) 1 = 1"
proof -
  have k: "nat k < c" "int (nat k) = k"
    using assms by simp_all
  show "length (one_hot c k) = c"
    by (simp add: one_hot_def)
  show "one_hot c k ! nat k = 1"
    using k by (simp add: one_hot_def)
  show "\<forall>j<c. j \<noteq> nat k \<longrightarrow> one_hot c k ! j = 0"
    using assms by (auto simp: one_hot_def)
  have "filter (\<lambda>j. (1::int) = (if int j = k then 1 else 0)) [0..<c] =
      filter (\<lambda>j. j = nat k) [0..<c]"
    using assms by (intro filter_cong) auto
  then show "count_list (one_hot c k) 1 = 1"
    using k(1)
    by (simp add: one_hot_def count_list_eq_length_filter filter_map comp_def filter_eq_upt)
qed

lemma reset_pass_identity:
  assumes "\<not> shuffle_flag p" "current_order p = [0..<dataset_size p]" "cursor p = 0"
  shows "reset_pass sh p = p"
  using assms by (cases p) (simp add: reset_pass_def dataset_size_def)

section \<open>Claims about the batch data provider\<close>

text \<open>
  C5. For a provider constructed over a dataset of size N with a valid \<open>batch_size\<close>
  that divides N: \<open>num_batches * batch_size = N\<close>, \<open>current_order\<close> is a permutation
  of \<open>0..N-1\<close>, and pulling exactly \<open>num_batches\<close> items yields \<open>num_batches\<close> batches
  and no end-of-pass sentinel, the \<open>k\<close>-th batch gathered from the \<open>k\<close>-th slice of
  \<open>current_order\<close>; the slices concatenated are \<open>current_order\<close>, so every index is
  covered exactly once.
\<close>

theorem pass_covers_dataset:
  assumes "permuting sh"
    and "construct_provider sh load entropy which_set bs flag seed = Inr p"
    and "bs dvd int (length (inputs (load which_set)))"
  shows "dataset_size p = length (inputs (load which_set)) \<and> batch_size p = nat bs \<and>
    num_batches p * batch_size p = dataset_size p \<and>
    mset (current_order p) = mset [0..<dataset_size p] \<and>
    pull sh (num_batches p) p = (pass_batches p, p\<lparr>cursor := dataset_size p\<rparr>) \<and>
    length (pass_batches p) = num_batches p \<and>
    EndOfPass \<notin> set (pass_batches p) \<and>
    concat (map (\<lambda>k. order_slice p (k * batch_size p)) [0..<num_batches p]) = current_order p"
proof -
  note ok = construct_ok [OF assms(2)]
  have inv: "provider_inv p"
    using assms(1,2) by (rule construct_inv)
  have "int (nat bs) dvd int (dataset_size p)"
    using assms(3) ok(2) by (simp add: ok(9))
  then have dvd: "batch_size p dvd dataset_size p"
    by (simp only: ok(5) int_dvd_int_iff)
  then have full: "num_batches p * batch_size p = dataset_size p"
    by (simp add: num_batches_def)
  have pos: "0 < batch_size p"
    using inv by (simp add: provider_inv_def)
  have "pull sh (num_batches p) p = (pass_batches p, p\<lparr>cursor := dataset_size p\<rparr>)"
    using pull_pass [OF pos ok(8), of sh] by (simp only: full)
  moreover have "mset (current_order p) = mset [0..<dataset_size p]"
    using inv by (simp add: provider_inv_def)
  moreover have "length (pass_batches p) = num_batches p"
    by (simp add: pass_batches_def)
  ultimately show ?thesis
    using ok(5,9) full pass_batches_are_batches pass_covers_order [OF inv dvd] by simp
qed

text \<open>
  Six rows in batches of two, shuffled from seed 1: three batches, over the indices
  \<open>1, 2\<close>, then \<open>3, 4\<close>, then \<open>5, 0\<close>.
\<close>

theorem pass_covers_dataset_witness:
  "permuting rotating_shuffle \<and>
   (\<exists>p. construct_provider rotating_shuffle (\<lambda>_. toy_dataset 6) 0 ''train'' 2 True (Some 1) = Inr p \<and>
        num_batches p = 3 \<and> current_order p = [1, 2, 3, 4, 5, 0] \<and>
        pull rotating_shuffle 3 p =
          ([gather p [1, 2], gather p [3, 4], gather p [5, 0]], p\<lparr>cursor := 6\<rparr>))"
proof -
  have "\<exists>p. construct_provider rotating_shuffle (\<lambda>_. toy_dataset 6) 0 ''train'' 2 True (Some 1) = Inr p"
    by (rule construct_succeeds) (simp_all add: valid_split_train toy_dataset_size)
  then obtain p where
    c: "construct_provider rotating_shuffle (\<lambda>_. toy_dataset 6) 0 ''train'' 2 True (Some 1) = Inr p"
    by blast
  note ok = construct_ok [OF c]
  have "(2::int) dvd int (length (inputs (toy_dataset 6)))"
    by (simp add: toy_dataset_size)
  from pass_covers_dataset [OF rotating_shuffle_permuting c this]
  have run: "pull rotating_shuffle (num_batches p) p = (pass_batches p, p\<lparr>cursor := dataset_size p\<rparr>)"
    by simp
  have size: "dataset_size p = 6" "batch_size p = 2"
    by (simp_all add: ok toy_dataset_size)
  then have nb: "num_batches p = 3"
    by (simp add: num_batches_def)
  have "rotate 1 [0..<6] = [1, 2, 3, 4, 5, 0]"
    by code_simp
  then have order: "current_order p = [1, 2, 3, 4, 5, 0]"
    by (simp add: ok toy_dataset_size rotating_shuffle_def)
  have "[0..<3] = [0, 1, 2]"
    by code_simp
  then have "pass_batches p = [gather p [1, 2], gather p [3, 4], gather p [5, 0]]"
    by (simp add: pass_batches_def nb size order order_slice_def)
  with run nb size order c rotating_shuffle_permuting show ?thesis
    by simp
qed

text \<open>
  C7. When \<open>next_batch\<close> emits a batch, the row of the target block for a target label
  \<open>k\<close> with \<open>0 <= k < C\<close> is the one-hot expansion of \<open>k\<close>: it has length C, the entry
  at position \<open>k\<close> is 1, every other entry is 0, and exactly one entry equals 1.
\<close>

theorem one_hot_expansion:
  assumes "cursor p + batch_size p \<le> dataset_size p"
    and "length (current_order p) = dataset_size p"
    and "i < batch_size p"
    and "k = targets (source p) ! (current_order p ! (cursor p + i))"
    and "0 \<le> k" and "k < int (num_classes p)"
  shows "\<exists>xs ts p'. next_batch sh p = (Batch xs ts, p') \<and>
    length ts = batch_size p \<and>
    ts ! i = one_hot (num_classes p) k \<and>
    length (ts ! i) = num_classes p \<and>
    ts ! i ! nat k = 1 \<and>
    (\<forall>j<num_classes p. j \<noteq> nat k \<longrightarrow> ts ! i ! j = 0) \<and>
    count_list (ts ! i) 1 = 1"
proof -
  let ?idx = "order_slice p (cursor p)"
  let ?ts = "map (\<lambda>i. one_hot (num_classes p) (targets (source p) ! i)) ?idx"
  have len: "length ?idx = batch_size p"
    using assms(1,2) by (simp add: order_slice_def)
  have "?idx ! i = current_order p ! (cursor p + i)"
    using assms(1,2,3) by (simp add: order_slice_def)
  then have row: "?ts ! i = one_hot (num_classes p) k"
    using assms(3,4) len by simp
  have "next_batch sh p =
      (Batch (map (\<lambda>i. inputs (source p) ! i) ?idx) ?ts, p\<lparr>cursor := cursor p + batch_size p\<rparr>)"
    using assms(1) by (simp add: next_batch_within gather_def)
  moreover have "length ?ts = batch_size p"
    using len by simp
  ultimately show ?thesis
    using row one_hot_props [OF assms(5,6)] by (metis (no_types, lifting))
qed

text \<open>
  The second batch of two over six rows with 10 classes: its second row has index 3 and
  label 3.
\<close>

theorem one_hot_expansion_witness:
  "\<exists>xs ts p'.
     next_batch rotating_shuffle
       \<lparr>source = toy_dataset 6, batch_size = 2, num_classes = 10,
        current_order = [0, 1, 2, 3, 4, 5], cursor = 2, shuffle_flag = False, rng = 0\<rparr> =
       (Batch xs ts, p') \<and>
     length ts = 2 \<and> ts ! 1 = [0, 0, 0, 1, 0, 0, 0, 0, 0, 0] \<and> count_list (ts ! 1) 1 = 1"
proof -
  let ?p = "\<lparr>source = toy_dataset 6, batch_size = 2, num_classes = 10,
        current_order = [0, 1, 2, 3, 4, 5], cursor = 2, shuffle_flag = False, rng = 0\<rparr>"
  have upt6: "[0..<6] = [0, 1, 2, 3, 4, 5]" and upt10: "[0..<10] = [0, 1, 2, 3, 4, 5, 6, 7, 8, 9]"
    by code_simp+
  have h1: "cursor ?p + batch_size ?p \<le> dataset_size ?p"
    by (simp add: dataset_size_def toy_dataset_size)
  have h2: "length (current_order ?p) = dataset_size ?p"
    by (simp add: dataset_size_def toy_dataset_size)
  have h3: "1 < batch_size ?p"
    by simp
  have h4: "3 = targets (source ?p) ! (current_order ?p ! (cursor ?p + 1))"
    by (simp add: toy_dataset_def upt6)
  have h5: "(0::int) \<le> 3" and h6: "3 < int (num_classes ?p)"
    by simp_all
  have hot: "one_hot 10 3 = [0, 0, 0, 1, 0, 0, 0, 0, 0, 0]"
    by (simp add: one_hot_def upt10)
  from one_hot_expansion [OF h1 h2 h3 h4 h5 h6, of rotating_shuffle]
  show ?thesis
    by (auto simp: hot)
qed

text \<open>
  C8. From the start of a pass, the first \<open>num_batches\<close> calls emit the batches of the
  pass and the next call, which finds \<open>cursor + batch_size > N\<close>, returns the end-of-pass
  sentinel once and leaves the provider reset by \<open>reset_pass\<close>: the cursor at 0 and
  \<open>current_order\<close> a permutation again. The calls after it emit the batches of the new
  pass, again followed by one sentinel, and when \<open>batch_size\<close> divides N the slices of the
  new pass cover its \<open>current_order\<close>. A call that emits a batch only advances the cursor:
  the order changes only in a call that returns the sentinel.
\<close>

theorem pass_boundary_signalled:
  assumes "permuting sh" "provider_inv p" "cursor p = 0"
  shows "pull sh (Suc (num_batches p)) p = (pass_batches p @ [EndOfPass], reset_pass sh p) \<and>
    0 < num_batches p \<and> length (pass_batches p) = num_batches p \<and>
    EndOfPass \<notin> set (pass_batches p) \<and>
    provider_inv (reset_pass sh p) \<and> cursor (reset_pass sh p) = 0 \<and>
    num_batches (reset_pass sh p) = num_batches p \<and>
    pull sh (Suc (num_batches p) + Suc (num_batches p)) p =
      (pass_batches p @ [EndOfPass] @ pass_batches (reset_pass sh p) @ [EndOfPass],
       reset_pass sh (reset_pass sh p)) \<and>
    EndOfPass \<notin> set (pass_batches (reset_pass sh p)) \<and>
    mset (current_order (reset_pass sh p)) = mset [0..<dataset_size p] \<and>
    (batch_size p dvd dataset_size p \<longrightarrow>
       concat (map (\<lambda>k. order_slice (reset_pass sh p) (k * batch_size p)) [0..<num_batches p]) =
         current_order (reset_pass sh p)) \<and>
    (\<forall>q. fst (next_batch sh q) \<noteq> EndOfPass \<longrightarrow>
       snd (next_batch sh q) = q\<lparr>cursor := cursor q + batch_size q\<rparr>)"
proof -
  let ?p' = "reset_pass sh p"
  have pos: "0 < batch_size p" and le: "batch_size p \<le> dataset_size p"
    using assms(2) by (simp_all add: provider_inv_def)
  have first: "pull sh (Suc (num_batches p)) p = (pass_batches p @ [EndOfPass], ?p')"
    using pos assms(3) by (rule pull_pass_and_signal)
  have nb: "0 < num_batches p"
    using pos le by (simp add: num_batches_def div_greater_zero_iff)
  have inv': "provider_inv ?p'"
    using assms(1) pos le by (rule reset_pass_inv)
  have c': "cursor ?p' = 0" and nb': "num_batches ?p' = num_batches p"
    and bs': "batch_size ?p' = batch_size p" and n': "dataset_size ?p' = dataset_size p"
    by (simp_all add: reset_pass_fields num_batches_def)
  have "pull sh (Suc (num_batches ?p')) ?p' = (pass_batches ?p' @ [EndOfPass], reset_pass sh ?p')"
    using pos c' by (intro pull_pass_and_signal) (simp_all add: bs')
  then have second: "pull sh (Suc (num_batches p)) ?p' =
      (pass_batches ?p' @ [EndOfPass], reset_pass sh ?p')"
    by (simp only: nb')
  have "pull sh (Suc (num_batches p) + Suc (num_batches p)) p =
      (case pull sh (Suc (num_batches p)) p of
         (xs, p') \<Rightarrow> (case pull sh (Suc (num_batches p)) p' of (ys, p'') \<Rightarrow> (xs @ ys, p'')))"
    by (rule pull_append)
  also have "\<dots> =
      (pass_batches p @ [EndOfPass] @ pass_batches ?p' @ [EndOfPass], reset_pass sh ?p')"
    by (simp add: first second del: pull.simps)
  finally have both: "pull sh (Suc (num_batches p) + Suc (num_batches p)) p =
      (pass_batches p @ [EndOfPass] @ pass_batches ?p' @ [EndOfPass], reset_pass sh ?p')" .
  have order': "mset (current_order ?p') = mset [0..<dataset_size p]"
    using inv' by (simp only: provider_inv_def n')
  have cover: "concat (map (\<lambda>k. order_slice ?p' (k * batch_size p)) [0..<num_batches p]) =
      current_order ?p'" if "batch_size p dvd dataset_size p"
    using pass_covers_order [of ?p'] inv' that by (simp add: bs' n' nb')
  have step: "snd (next_batch sh q) = q\<lparr>cursor := cursor q + batch_size q\<rparr>"
    if "fst (next_batch sh q) \<noteq> EndOfPass" for q
    using that by (simp add: next_batch_def split: if_splits)
  show ?thesis
    using first nb inv' c' nb' both order' cover step
      pass_batches_are_batches [of p] pass_batches_are_batches [of ?p']
    by (simp add: pass_batches_def)
qed

text \<open>
  N = 100, \<open>batch_size\<close> = 50, no shuffling: six calls yield the batches over \<open>0..49\<close> and
  \<open>50..99\<close>, the sentinel, and the same again.
\<close>

theorem pass_boundary_signalled_witness:
  "\<exists>p. construct_provider rotating_shuffle (\<lambda>_. toy_dataset 100) 0 ''train'' 50 False None = Inr p \<and>
       num_batches p = 2 \<and>
       pull rotating_shuffle 6 p =
         ([gather p [0..<50], gather p [50..<100], EndOfPass,
           gather p [0..<50], gather p [50..<100], EndOfPass], p)"
proof -
  have "\<exists>p. construct_provider rotating_shuffle (\<lambda>_. toy_dataset 100) 0 ''train'' 50 False None = Inr p"
    by (rule construct_succeeds) (simp_all add: valid_split_train toy_dataset_size)
  then obtain p where
    c: "construct_provider rotating_shuffle (\<lambda>_. toy_dataset 100) 0 ''train'' 50 False None = Inr p"
    by blast
  note ok = construct_ok [OF c]
  have inv: "provider_inv p"
    using rotating_shuffle_permuting c by (rule construct_inv)
  have size: "dataset_size p = 100" "batch_size p = 50"
    by (simp_all add: ok toy_dataset_size)
  then have nb: "num_batches p = 2"
    by (simp add: num_batches_def)
  have order: "current_order p = [0..<100]"
    by (simp add: ok toy_dataset_size)
  have same: "reset_pass rotating_shuffle p = p"
    by (rule reset_pass_identity) (simp_all add: ok order size)
  have "[0..<2] = [0, 1]"
    by code_simp
  then have batches: "pass_batches p = [gather p [0..<50], gather p [50..<100]]"
    by (simp add: pass_batches_def nb size order order_slice_def)
  have "Suc (num_batches p) + Suc (num_batches p) = 6"
    by (simp add: nb)
  with pass_boundary_signalled [OF rotating_shuffle_permuting inv ok(8)]
  have "pull rotating_shuffle 6 p =
      (pass_batches p @ [EndOfPass] @ pass_batches (reset_pass rotating_shuffle p) @ [EndOfPass],
       reset_pass rotating_shuffle (reset_pass rotating_shuffle p))"
    by (simp only:)
  then have "pull rotating_shuffle 6 p =
         ([gather p [0..<50], gather p [50..<100], EndOfPass,
           gather p [0..<50], gather p [50..<100], EndOfPass], p)"
    by (simp only: same batches append.simps)
  with c nb show ?thesis by blast
qed

text \<open>
  C9. Construction returns \<open>ConfigurationError\<close>, and no provider, whenever the split
  identifier is invalid, \<open>batch_size <= 0\<close> or \<open>batch_size > N\<close>; for every other
  argument it returns a provider with the given batch size and flag and the cursor at 0.
\<close>

theorem construction_checks_configuration:
  "(\<not> valid_split which_set \<or> bs \<le> 0 \<or> int (length (inputs (load which_set))) < bs \<longrightarrow>
      construct_provider sh load entropy which_set bs flag seed = Inl ConfigurationError) \<and>
   (valid_split which_set \<and> 0 < bs \<and> bs \<le> int (length (inputs (load which_set))) \<longrightarrow>
      (\<exists>p. construct_provider sh load entropy which_set bs flag seed = Inr p \<and>
           source p = load which_set \<and> batch_size p = nat bs \<and>
           shuffle_flag p = flag \<and> cursor p = 0))"
proof (intro conjI impI)
  assume "\<not> valid_split which_set \<or> bs \<le> 0 \<or> int (length (inputs (load which_set))) < bs"
  then show "construct_provider sh load entropy which_set bs flag seed = Inl ConfigurationError"
    by (simp only: construct_error_iff)
next
  assume a: "valid_split which_set \<and> 0 < bs \<and> bs \<le> int (length (inputs (load which_set)))"
  then have "\<exists>p. construct_provider sh load entropy which_set bs flag seed = Inr p"
    by (intro construct_succeeds) simp_all
  then obtain p where c: "construct_provider sh load entropy which_set bs flag seed = Inr p"
    by blast
  from construct_ok(4,5,7,8) [OF c] c
  show "\<exists>p. construct_provider sh load entropy which_set bs flag seed = Inr p \<and>
           source p = load which_set \<and> batch_size p = nat bs \<and>
           shuffle_flag p = flag \<and> cursor p = 0"
    by blast
qed

text \<open>
  Over 100 rows: batch sizes 0 and 101 and the split \<open>dev\<close> are refused, batch size 50 on
  \<open>train\<close> is accepted.
\<close>

theorem construction_checks_configuration_witness:
  "construct_provider rotating_shuffle (\<lambda>_. toy_dataset 100) 0 ''train'' 0 True None =
     Inl ConfigurationError \<and>
   construct_provider rotating_shuffle (\<lambda>_. toy_dataset 100) 0 ''train'' 101 True None =
     Inl ConfigurationError \<and>
   construct_provider rotating_shuffle (\<lambda>_. toy_dataset 100) 0 ''dev'' 50 True None =
     Inl ConfigurationError \<and>
   (\<exists>p. construct_provider rotating_shuffle (\<lambda>_. toy_dataset 100) 0 ''train'' 50 True None = Inr p \<and>
        batch_size p = 50 \<and> cursor p = 0)"
proof -
  have dev: "\<not> valid_split ''dev''"
    by (simp add: valid_split_def)
  show ?thesis
    using construction_checks_configuration
        [of "''train''" 0 "\<lambda>_. toy_dataset 100" rotating_shuffle 0 True None]
      construction_checks_configuration
        [of "''train''" 101 "\<lambda>_. toy_dataset 100" rotating_shuffle 0 True None]
      construction_checks_configuration
        [of "''dev''" 50 "\<lambda>_. toy_dataset 100" rotating_shuffle 0 True None]
      construction_checks_configuration
        [of "''train''" 50 "\<lambda>_. toy_dataset 100" rotating_shuffle 0 True None]
    by (auto simp: valid_split_train dev toy_dataset_size)
qed

end
